theory Spec2Isabelle
  imports Main
begin

section \<open>JavaScript string operations used by the services\<close>

text \<open>
  Command texts and command output are JavaScript strings; they are modelled as
  \<^typ>\<open>string\<close>.  Only the operations the services call are defined:
  \<^verbatim>\<open>startsWith\<close>, \<^verbatim>\<open>includes\<close>, \<^verbatim>\<open>replace\<close> with a string pattern (first
  occurrence only), \<^verbatim>\<open>trim\<close> and \<^verbatim>\<open>split\<close> on a one-character separator.
\<close>

fun startsWith :: "string \<Rightarrow> string \<Rightarrow> bool" where
  "startsWith s [] = True"
| "startsWith [] (p # ps) = False"
| "startsWith (c # cs) (p # ps) = (c = p \<and> startsWith cs ps)"

fun includes_str :: "string \<Rightarrow> string \<Rightarrow> bool" where
  "includes_str [] p = (p = [])"
| "includes_str (c # cs) p = (startsWith (c # cs) p \<or> includes_str cs p)"

text \<open>\<^verbatim>\<open>s.replace(p, r)\<close> for a string pattern: the first occurrence of \<open>p\<close>, if any.\<close>

fun replace :: "string \<Rightarrow> string \<Rightarrow> string \<Rightarrow> string" where
  "replace [] p r = (if p = [] then r else [])"
| "replace (c # cs) p r =
     (if startsWith (c # cs) p then r @ drop (length p) (c # cs) else c # replace cs p r)"

text \<open>White space as \<^verbatim>\<open>trim\<close> sees it, within the ASCII range: TAB, LF, VT, FF, CR, SPACE.\<close>

definition isWhiteSpace :: "char \<Rightarrow> bool" where
  "isWhiteSpace c = (c \<in> set [CHR 0x09, CHR 0x0A, CHR 0x0B, CHR 0x0C, CHR 0x0D, CHR 0x20])"

definition trim :: "string \<Rightarrow> string" where
  "trim s = rev (dropWhile isWhiteSpace (rev (dropWhile isWhiteSpace s)))"

text \<open>\<^verbatim>\<open>s.split(sep)\<close> for a one-character separator; the empty string splits into \<open>['''']\<close>.\<close>

fun split_str :: "string \<Rightarrow> char \<Rightarrow> string list" where
  "split_str [] sep = [[]]"
| "split_str (c # cs) sep =
     (if c = sep then [] # split_str cs sep
      else (case split_str cs sep of
              [] \<Rightarrow> [[c]]
            | piece # pieces \<Rightarrow> (c # piece) # pieces))"


section \<open>SshService: the non-interactive sudo rewrite\<close>

text \<open>
  The value of the local \<^verbatim>\<open>modifiedCommand\<close> of \<^verbatim>\<open>executeSudoCommand\<close> once the
  rewrite block has run: a command that starts with \<^verbatim>\<open>'sudo '\<close> and does not contain
  \<^verbatim>\<open>'sudo -n'\<close> has its first \<^verbatim>\<open>'sudo '\<close> replaced by \<^verbatim>\<open>'sudo -n '\<close>.
\<close>

definition modifiedCommand :: "string \<Rightarrow> string" where
  "modifiedCommand command =
     (if startsWith command ''sudo '' \<and> \<not> includes_str command ''sudo -n''
      then replace command ''sudo '' ''sudo -n ''
      else command)"



section \<open>SshService: data, the remote side, commands as their caller sees them\<close>

record SshConnection =
  sshKey :: string
  remoteUser :: string
  remoteHost :: string

record SshCommandResult =
  stdout :: string
  stderr :: string

text \<open>
  \<^verbatim>\<open>CommandOptions\<close>: every field is optional; \<open>None\<close> is a field left out
  (\<^verbatim>\<open>undefined\<close>).  \<open>noOptions\<close> is the literal \<^verbatim>\<open>{}\<close>.
\<close>

record CommandOptions =
  timeout :: "int option"
  requiresSudo :: "bool option"
  retries :: "int option"

definition noOptions :: CommandOptions where
  "noOptions = \<lparr>timeout = None, requiresSudo = None, retries = None\<rparr>"

text \<open>A JavaScript \<^verbatim>\<open>Error\<close> with its message; a promise settles with an error or a result.\<close>

datatype error = Error string

type_synonym outcome = "error + SshCommandResult"

text \<open>
  What a caller can observe of its own run: each command handed to
  \<^verbatim>\<open>executeRemoteCommandPooled\<close> (text, timeout, and how its promise settled) and each
  \<^verbatim>\<open>setTimeout\<close> wait, in program order.  Logging is not modelled: it changes no
  control flow.
\<close>

datatype event = Submit string int outcome | Sleep int

text \<open>
  The state threaded through a run: the remote host and transport (\<open>remote\<close>, abstract),
  the clock read by \<^verbatim>\<open>Date.now()\<close> in milliseconds, and the events so far.
\<close>

record 'r world =
  remote :: 'r
  now :: int
  trace :: "event list"

text \<open>
  The surroundings of a run.  The four variables are the ones \<^verbatim>\<open>createConnection\<close> reads
  from \<^verbatim>\<open>process.env\<close>.  \<open>exec\<close> stands for the transport below the connection pool: for
  a connection, a command text, a timeout, the current time and the remote state it fixes
  how the awaited promise settles, the next remote state and the time that passed.
\<close>

record 'r environment =
  VM_USER :: "string option"
  REMOTE_USER :: "string option"
  VM_IP_ADDRESS :: "string option"
  REMOTE_HOST :: "string option"
  exec :: "SshConnection \<Rightarrow> string \<Rightarrow> int \<Rightarrow> int \<Rightarrow> 'r \<Rightarrow> outcome \<times> 'r \<times> nat"

text \<open>\<^verbatim>\<open>a || b\<close> on values that are a string or \<^verbatim>\<open>undefined\<close>: \<open>a\<close> when it is truthy.\<close>

definition jsOr :: "string option \<Rightarrow> string option \<Rightarrow> string option" where
  "jsOr a b = (case a of None \<Rightarrow> b | Some s \<Rightarrow> if s = [] then b else Some s)"

definition createConnection :: "'r environment \<Rightarrow> SshConnection option" where
  "createConnection env =
     (case (jsOr (VM_USER env) (REMOTE_USER env), jsOr (VM_IP_ADDRESS env) (REMOTE_HOST env)) of
        (Some user, Some host) \<Rightarrow>
          if user = [] \<or> host = [] then None
          else Some \<lparr>sshKey = ''~/.ssh/id_rsa.pem'', remoteUser = user, remoteHost = host\<rparr>
      | _ \<Rightarrow> None)"

text \<open>
  The delay \<^verbatim>\<open>setTimeout\<close> applies for a requested number of milliseconds: Node.js sets a
  delay below 1 or above 2147483647 to 1.  Timers are taken to run at their due times.
\<close>

definition timerDelay :: "int \<Rightarrow> int" where
  "timerDelay ms = (if ms < 1 \<or> 2147483647 < ms then 1 else ms)"

text \<open>\<^verbatim>\<open>await new Promise(resolve => setTimeout(resolve, ms))\<close>.\<close>

definition sleep :: "int \<Rightarrow> 'r world \<Rightarrow> 'r world" where
  "sleep ms w = w\<lparr>now := now w + timerDelay ms, trace := trace w @ [Sleep ms]\<rparr>"

text \<open>
  \<^verbatim>\<open>await executeRemoteCommandPooled(connection, cmd, timeoutMs)\<close> as the awaiting caller
  sees it: the request is handed to the pool and the promise settles as the transport
  decides.  (The queue behind the call is modelled on its own further down.)
\<close>

definition executeRemoteCommandPooled ::
  "'r environment \<Rightarrow> SshConnection \<Rightarrow> string \<Rightarrow> int \<Rightarrow> 'r world \<Rightarrow> outcome \<times> 'r world" where
  "executeRemoteCommandPooled env connection cmd timeoutMs w =
     (case exec env connection cmd timeoutMs (now w) (remote w) of
        (out, remote', elapsed) \<Rightarrow>
          (out, \<lparr>remote = remote', now = now w + int elapsed,
                 trace = trace w @ [Submit cmd timeoutMs out]\<rparr>))"


section \<open>SshService: the sudo path and the plain path\<close>

text \<open>
  The retry loop of \<^verbatim>\<open>executeSudoCommand\<close>, entered with \<open>attempt\<close>; \<open>modified\<close> is the
  rewritten command.  A failed attempt that is not the last waits \<open>2000 * attempt\<close>.
\<close>

function sudoAttempts ::
  "'r environment \<Rightarrow> SshConnection \<Rightarrow> string \<Rightarrow> int \<Rightarrow> int \<Rightarrow> int \<Rightarrow> 'r world
     \<Rightarrow> outcome \<times> 'r world" where
  "sudoAttempts env connection modified timeoutMs retriesN attempt w =
     (if attempt \<le> retriesN then
        (case executeRemoteCommandPooled env connection modified timeoutMs w of
           (Inr result, w') \<Rightarrow> (Inr result, w')
         | (Inl err, w') \<Rightarrow>
             if attempt = retriesN then (Inl err, w')
             else sudoAttempts env connection modified timeoutMs retriesN (attempt + 1)
                    (sleep (2000 * attempt) w'))
      else (Inl (Error ''Unexpected end of executeSudoCommand''), w))"
  by pat_completeness auto
termination
  by (relation "measure (\<lambda>(env, connection, modified, timeoutMs, retriesN, attempt, w).
        nat (retriesN + 1 - attempt))") auto

declare sudoAttempts.simps [simp del]

definition executeSudoCommand ::
  "'r environment \<Rightarrow> SshConnection \<Rightarrow> string \<Rightarrow> int \<Rightarrow> int \<Rightarrow> 'r world \<Rightarrow> outcome \<times> 'r world" where
  "executeSudoCommand env connection command timeoutMs retriesN w =
     sudoAttempts env connection (modifiedCommand command) timeoutMs retriesN 1 w"

text \<open>
  The retry loop of the plain path, in the body of \<^verbatim>\<open>executeRemoteCommandWithOptions\<close>:
  the command text as given, and a wait of \<open>1000 * attempt\<close>.
\<close>

function plainAttempts ::
  "'r environment \<Rightarrow> SshConnection \<Rightarrow> string \<Rightarrow> int \<Rightarrow> int \<Rightarrow> int \<Rightarrow> 'r world
     \<Rightarrow> outcome \<times> 'r world" where
  "plainAttempts env connection cmd timeoutMs retriesN attempt w =
     (if attempt \<le> retriesN then
        (case executeRemoteCommandPooled env connection cmd timeoutMs w of
           (Inr result, w') \<Rightarrow> (Inr result, w')
         | (Inl err, w') \<Rightarrow>
             if attempt = retriesN then (Inl err, w')
             else plainAttempts env connection cmd timeoutMs retriesN (attempt + 1)
                    (sleep (1000 * attempt) w'))
      else (Inl (Error ''Unexpected end of executeRemoteCommandWithOptions''), w))"
  by pat_completeness auto
termination
  by (relation "measure (\<lambda>(env, connection, cmd, timeoutMs, retriesN, attempt, w).
        nat (retriesN + 1 - attempt))") auto

declare plainAttempts.simps [simp del]

definition executeRemoteCommandWithOptions ::
  "'r environment \<Rightarrow> SshConnection \<Rightarrow> string \<Rightarrow> CommandOptions \<Rightarrow> 'r world
     \<Rightarrow> outcome \<times> 'r world" where
  "executeRemoteCommandWithOptions env connection cmd options w =
     (let timeoutMs = (case timeout options of None \<Rightarrow> 30000 | Some t \<Rightarrow> t);
          sudoWanted = (case requiresSudo options of None \<Rightarrow> includes_str cmd ''sudo'' | Some b \<Rightarrow> b);
          retriesN = (case retries options of None \<Rightarrow> 1 | Some n \<Rightarrow> n)
      in if sudoWanted \<or> startsWith cmd ''sudo''
         then executeSudoCommand env connection cmd timeoutMs retriesN w
         else plainAttempts env connection cmd timeoutMs retriesN 1 w)"

text \<open>\<^verbatim>\<open>executeCommand(connection)\<close> returns the closure the lifecycle services call \<^verbatim>\<open>runRemote\<close>.\<close>

definition executeCommand ::
  "'r environment \<Rightarrow> SshConnection \<Rightarrow> string \<Rightarrow> CommandOptions \<Rightarrow> 'r world \<Rightarrow> outcome \<times> 'r world" where
  "executeCommand env connection = executeRemoteCommandWithOptions env connection"


section \<open>Reading a trace\<close>

fun attemptsOf :: "event list \<Rightarrow> outcome list" where
  "attemptsOf [] = []"
| "attemptsOf (Submit cmd timeoutMs out # evs) = out # attemptsOf evs"
| "attemptsOf (Sleep ms # evs) = attemptsOf evs"

fun delaysOf :: "event list \<Rightarrow> int list" where
  "delaysOf [] = []"
| "delaysOf (Submit cmd timeoutMs out # evs) = delaysOf evs"
| "delaysOf (Sleep ms # evs) = ms # delaysOf evs"

fun textsOf :: "event list \<Rightarrow> string list" where
  "textsOf [] = []"
| "textsOf (Submit cmd timeoutMs out # evs) = cmd # textsOf evs"
| "textsOf (Sleep ms # evs) = textsOf evs"

text \<open>The results of the successful submissions of one command text.\<close>

fun resultsOf :: "event list \<Rightarrow> string \<Rightarrow> SshCommandResult list" where
  "resultsOf [] cmd = []"
| "resultsOf (Submit c timeoutMs (Inr r) # evs) cmd =
     (if c = cmd then r # resultsOf evs cmd else resultsOf evs cmd)"
| "resultsOf (ev # evs) cmd = resultsOf evs cmd"

text \<open>The events a run added: those of the final trace beyond the initial one.\<close>

definition eventsSince :: "'r world \<Rightarrow> 'r world \<Rightarrow> event list" where
  "eventsSince w w' = drop (length (trace w)) (trace w')"

text \<open>
  The events of a run in which every attempt fails: attempt \<open>a\<close> fails with the head of
  the error list, and a wait of \<open>base * a\<close> follows unless it was the last attempt.
\<close>

fun failedRun :: "int \<Rightarrow> string \<Rightarrow> int \<Rightarrow> int \<Rightarrow> error list \<Rightarrow> event list" where
  "failedRun base cmd timeoutMs a [] = []"
| "failedRun base cmd timeoutMs a [e] = [Submit cmd timeoutMs (Inl e)]"
| "failedRun base cmd timeoutMs a (e # e' # es) =
     Submit cmd timeoutMs (Inl e) # Sleep (base * a) # failedRun base cmd timeoutMs (a + 1) (e' # es)"


section \<open>CelestiaNodeStopper\<close>

definition stopServiceCmd :: string where
  "stopServiceCmd = ''sudo systemctl stop celestia-light''"

definition isActiveCmd :: string where
  \<open>isActiveCmd = ''systemctl is-active celestia-light.service 2>/dev/null || echo "inactive"''\<close>

definition processCheckCmd :: string where
  \<open>processCheckCmd = ''pgrep -f "celestia.*light" || echo "NO_PROCESSES"''\<close>

text \<open>
  \<^verbatim>\<open>stopSystemdService\<close>: the stop command on the sudo path with two attempts; its failure
  is rethrown.  After a success, a wait of 3 s and a status query whose result and failure
  are only logged.
\<close>

definition stopSystemdService ::
  "'r environment \<Rightarrow> SshConnection \<Rightarrow> 'r world \<Rightarrow> (error + unit) \<times> 'r world" where
  "stopSystemdService env connection w =
     (let runRemote = executeCommand env connection in
      case runRemote stopServiceCmd
             \<lparr>timeout = Some 90000, requiresSudo = Some True, retries = Some 2\<rparr> w of
        (Inl err, w1) \<Rightarrow> (Inl err, w1)
      | (Inr result, w1) \<Rightarrow>
          (case runRemote isActiveCmd
                  \<lparr>timeout = Some 15000, requiresSudo = None, retries = Some 2\<rparr> (sleep 3000 w1) of
             (statusResult, w2) \<Rightarrow> (Inr (), w2)))"

text \<open>
  The poll loop of \<^verbatim>\<open>verifyNodeStopped\<close>, with \<^verbatim>\<open>maxWaitTime = 30000\<close>: it ends when the
  budget is used up, when the process check prints \<^verbatim>\<open>NO_PROCESSES\<close>, or when the check
  fails; otherwise it waits 3 s and polls again.
\<close>

function verifyLoop :: "'r environment \<Rightarrow> SshConnection \<Rightarrow> int \<Rightarrow> 'r world \<Rightarrow> 'r world" where
  "verifyLoop env connection startTime w =
     (if now w - startTime < 30000 then
        (case executeCommand env connection processCheckCmd
                \<lparr>timeout = Some 10000, requiresSudo = None, retries = None\<rparr> w of
           (Inl err, w1) \<Rightarrow> w1
         | (Inr processCheck, w1) \<Rightarrow>
             if trim (stdout processCheck) = ''NO_PROCESSES'' then w1
             else verifyLoop env connection startTime (sleep 3000 w1))
      else w)"
  by pat_completeness auto

definition verifyNodeStopped :: "'r environment \<Rightarrow> SshConnection \<Rightarrow> 'r world \<Rightarrow> 'r world" where
  "verifyNodeStopped env connection w = verifyLoop env connection (now w) w"

definition stopNode :: "'r environment \<Rightarrow> 'r world \<Rightarrow> bool \<times> 'r world" where
  "stopNode env w =
     (case createConnection env of
        None \<Rightarrow> (False, w)
      | Some connection \<Rightarrow>
          (case stopSystemdService env connection w of
             (Inl err, w1) \<Rightarrow> (False, w1)
           | (Inr done, w1) \<Rightarrow> (True, verifyNodeStopped env connection w1)))"


section \<open>CelestiaNodeStarter\<close>

definition currentStatusCmd :: string where
  "currentStatusCmd = ''systemctl status celestia-light.service --no-pager --lines=5''"

definition startServiceCmd :: string where
  "startServiceCmd = ''sudo systemctl start celestia-light.service''"

definition detailedStatusCmd :: string where
  "detailedStatusCmd = ''sudo systemctl status celestia-light.service --no-pager --lines=20''"

definition recentLogsCmd :: string where
  "recentLogsCmd = ''sudo journalctl -u celestia-light.service --no-pager --lines=10''"

text \<open>\<^verbatim>\<open>isServiceRunning\<close>: the trimmed output is exactly \<^verbatim>\<open>active\<close>; a failed query is "not running".\<close>

definition isServiceRunning ::
  "'r environment \<Rightarrow> SshConnection \<Rightarrow> 'r world \<Rightarrow> bool \<times> 'r world" where
  "isServiceRunning env connection w =
     (case executeCommand env connection isActiveCmd noOptions w of
        (Inr serviceStatus, w1) \<Rightarrow> (trim (stdout serviceStatus) = ''active'', w1)
      | (Inl err, w1) \<Rightarrow> (False, w1))"

text \<open>
  \<^verbatim>\<open>startService\<close>: the wait of 3 s is inside the \<^verbatim>\<open>try\<close> block, after the awaited
  command; a failed command is logged and rethrown.
\<close>

definition startService ::
  "'r environment \<Rightarrow> SshConnection \<Rightarrow> 'r world \<Rightarrow> (error + unit) \<times> 'r world" where
  "startService env connection w =
     (case executeCommand env connection startServiceCmd noOptions w of
        (Inr startResult, w1) \<Rightarrow> (Inr (), sleep 3000 w1)
      | (Inl err, w1) \<Rightarrow> (Inl err, w1))"

text \<open>\<^verbatim>\<open>showServiceStatus\<close>: two diagnostic queries; a failure of either is logged only.\<close>

definition showServiceStatus :: "'r environment \<Rightarrow> SshConnection \<Rightarrow> 'r world \<Rightarrow> 'r world" where
  "showServiceStatus env connection w =
     (case executeCommand env connection detailedStatusCmd noOptions w of
        (Inl err, w1) \<Rightarrow> w1
      | (Inr statusResult, w1) \<Rightarrow>
          (case executeCommand env connection recentLogsCmd noOptions w1 of
             (logsResult, w2) \<Rightarrow> w2))"

text \<open>
  \<^verbatim>\<open>CelestiaNodeStarter.start\<close>.  The network label is only logged.  Every await of the
  body is inside the one outer \<^verbatim>\<open>try\<close>, whose handler returns \<^verbatim>\<open>false\<close>: so does a failure
  of the status query made when the service is found running, and a failure rethrown by
  \<^verbatim>\<open>startService\<close>.
\<close>

definition start :: "string \<Rightarrow> 'r environment \<Rightarrow> 'r world \<Rightarrow> bool \<times> 'r world" where
  "start celestiaNetwork env w =
     (case createConnection env of
        None \<Rightarrow> (False, w)
      | Some connection \<Rightarrow>
          (case isServiceRunning env connection w of
             (True, w1) \<Rightarrow>
               (case executeCommand env connection currentStatusCmd noOptions w1 of
                  (Inr statusResult, w2) \<Rightarrow> (True, w2)
                | (Inl err, w2) \<Rightarrow> (False, w2))
           | (False, w1) \<Rightarrow>
               (case startService env connection w1 of
                  (Inl err, w2) \<Rightarrow> (False, w2)
                | (Inr done, w2) \<Rightarrow>
                    (case isServiceRunning env connection (sleep 5000 w2) of
                       (True, w3) \<Rightarrow> (True, w3)
                     | (False, w3) \<Rightarrow> (False, showServiceStatus env connection w3)))))"


section \<open>CelestiaNodeStatus\<close>

definition serviceDetailsCmd :: string where
  \<open>serviceDetailsCmd = ''sudo systemctl status celestia-light.service --no-pager --lines=10 2>/dev/null || echo "Service not found"''\<close>

definition pgrepCmd :: string where
  \<open>pgrepCmd = ''pgrep -f "celestia.*light"''\<close>

definition psCmd :: string where
  "psCmd = ''ps aux | grep celestia | grep -v grep || true''"

record NodeStatus =
  isRunning :: bool
  serviceStatus :: string
  processIds :: "string list"
  processDetails :: string
  serviceDetails :: string

text \<open>\<^verbatim>\<open>stdout.trim().split('\n').filter(pid => pid.trim())\<close>: the pieces that are not blank.\<close>

definition pidsOf :: "string \<Rightarrow> string list" where
  "pidsOf out = filter (\<lambda>pid. trim pid \<noteq> []) (split_str (trim out) CHR 0x0A)"

text \<open>
  \<^verbatim>\<open>getStatus\<close>.  Each group of queries has its own \<^verbatim>\<open>try\<close>: \<open>serviceStatus\<close> is assigned
  as soon as the first query has succeeded, before the details query is made.
\<close>

definition getStatus :: "'r environment \<Rightarrow> 'r world \<Rightarrow> NodeStatus \<times> 'r world" where
  "getStatus env w =
     (case createConnection env of
        None \<Rightarrow>
          (\<lparr>isRunning = False, serviceStatus = ''inactive'', processIds = [],
            processDetails = ''Remote connection not configured'',
            serviceDetails = ''Remote connection not configured''\<rparr>, w)
      | Some connection \<Rightarrow>
          (let runRemote = executeCommand env connection;
               (status, details, w2) =
                 (case runRemote isActiveCmd
                         \<lparr>timeout = Some 15000, requiresSudo = None, retries = Some 2\<rparr> w of
                    (Inl err, w1) \<Rightarrow> (''unknown'', ''Could not retrieve service details'', w1)
                  | (Inr serviceStatusResult, w1) \<Rightarrow>
                      (case runRemote serviceDetailsCmd
                              \<lparr>timeout = Some 30000, requiresSudo = Some True, retries = Some 2\<rparr> w1 of
                         (Inl err, w2) \<Rightarrow>
                           (trim (stdout serviceStatusResult), ''Could not retrieve service details'', w2)
                       | (Inr serviceDetailsResult, w2) \<Rightarrow>
                           (trim (stdout serviceStatusResult), trim (stdout serviceDetailsResult), w2)));
               (pids, w3) =
                 (case runRemote pgrepCmd
                         \<lparr>timeout = Some 15000, requiresSudo = None, retries = Some 2\<rparr> w2 of
                    (Inl err, w3) \<Rightarrow> ([], w3)
                  | (Inr processResult, w3) \<Rightarrow> (pidsOf (stdout processResult), w3));
               (procDetails, w4) =
                 (case runRemote psCmd
                         \<lparr>timeout = Some 20000, requiresSudo = None, retries = Some 2\<rparr> w3 of
                    (Inl err, w4) \<Rightarrow> (''Could not retrieve process details'', w4)
                  | (Inr detailsResult, w4) \<Rightarrow> (trim (stdout detailsResult), w4))
           in (\<lparr>isRunning = (status = ''active'' \<or> pids \<noteq> []), serviceStatus = status,
                processIds = pids, processDetails = procDetails, serviceDetails = details\<rparr>, w4)))"

text \<open>\<^verbatim>\<open>isCelestiaProcessesRunning\<close>: the process list is asked only when the service is not active.\<close>

definition isCelestiaProcessesRunning :: "'r environment \<Rightarrow> 'r world \<Rightarrow> bool \<times> 'r world" where
  "isCelestiaProcessesRunning env w =
     (case createConnection env of
        None \<Rightarrow> (False, w)
      | Some connection \<Rightarrow>
          (let runRemote = executeCommand env connection in
           case runRemote isActiveCmd
                  \<lparr>timeout = Some 15000, requiresSudo = None, retries = Some 2\<rparr> w of
             (Inr serviceStatusResult, w1) \<Rightarrow>
               if trim (stdout serviceStatusResult) = ''active'' then (True, w1)
               else (case runRemote pgrepCmd
                            \<lparr>timeout = Some 15000, requiresSudo = None, retries = Some 2\<rparr> w1 of
                       (Inr processResult, w2) \<Rightarrow> (trim (stdout processResult) \<noteq> [], w2)
                     | (Inl err, w2) \<Rightarrow> (False, w2))
           | (Inl err, w1) \<Rightarrow>
               (case runRemote pgrepCmd
                       \<lparr>timeout = Some 15000, requiresSudo = None, retries = Some 2\<rparr> w1 of
                  (Inr processResult, w2) \<Rightarrow> (trim (stdout processResult) \<noteq> [], w2)
                | (Inl err, w2) \<Rightarrow> (False, w2))))"


section \<open>SshService: one run of executeRemoteCommand\<close>

text \<open>Decimal digits of a number, as a template literal prints an integer.\<close>

definition digitChar :: "nat \<Rightarrow> char" where
  "digitChar d = ''0123456789'' ! d"

fun decimal :: "nat \<Rightarrow> string" where
  "decimal n = (if n < 10 then [digitChar n] else decimal (n div 10) @ [digitChar (n mod 10)])"

declare decimal.simps [simp del]

definition numberText :: "int \<Rightarrow> string" where
  "numberText i = (if i < 0 then CHR ''-'' # decimal (nat (- i)) else decimal (nat i))"

datatype signal = SIGTERM | SIGKILL

text \<open>
  What the child process does, each with the time at which the handler runs: a chunk on
  an output stream, \<^verbatim>\<open>close\<close> with the exit code (\<open>None\<close> is \<^verbatim>\<open>null\<close>), or \<^verbatim>\<open>error\<close>.
\<close>

datatype childEvent =
    StdoutData string
  | StderrData string
  | Close "int option"
  | ChildError error

text \<open>
  The variables of one call of \<^verbatim>\<open>executeRemoteCommand\<close>: the closure variables
  \<open>stdoutBuf\<close>, \<open>stderrBuf\<close>, \<open>finished\<close>; the two timers, each with its due time while armed
  (\<open>timer\<close> is the timeout timer, \<open>forceKill\<close> the nested 5 s timer); the child's \<open>pid\<close>
  (\<^verbatim>\<open>undefined\<close> when the spawn failed); the signals sent with \<^verbatim>\<open>ssh.kill\<close>, with their
  times; and how the returned promise has settled, if it has.
\<close>

record runner =
  cmdText :: string
  limitMs :: int
  stdoutBuf :: string
  stderrBuf :: string
  finished :: bool
  timer :: "int option"
  forceKill :: "int option"
  pid :: "nat option"
  killed :: "(int \<times> signal) list"
  settled :: "outcome option"

text \<open>\<^verbatim>\<open>resolve\<close> and \<^verbatim>\<open>reject\<close>: a promise settles once; later calls change nothing.\<close>

definition settle :: "outcome \<Rightarrow> runner \<Rightarrow> runner" where
  "settle out r = (case settled r of None \<Rightarrow> r\<lparr>settled := Some out\<rparr> | Some first \<Rightarrow> r)"

text \<open>The call itself, at time \<open>t\<close>: the child is spawned and the timeout timer is armed.\<close>

definition executeRemoteCommand :: "string \<Rightarrow> int \<Rightarrow> nat option \<Rightarrow> int \<Rightarrow> runner" where
  "executeRemoteCommand command timeoutMillis childPid t =
     \<lparr>cmdText = command, limitMs = timeoutMillis, stdoutBuf = [], stderrBuf = [],
      finished = False, timer = Some (t + timerDelay timeoutMillis), forceKill = None,
      pid = childPid, killed = [], settled = None\<rparr>"

text \<open>The callback of the timeout timer, run at time \<open>t\<close>.\<close>

definition onTimeout :: "int \<Rightarrow> runner \<Rightarrow> runner" where
  "onTimeout t r =
     (if \<not> finished r then
        settle (Inl (Error (''SSH command timeout after '' @ numberText (limitMs r) @ ''ms: '' @ cmdText r)))
          (r\<lparr>finished := True, timer := None, killed := killed r @ [(t, SIGTERM)],
             forceKill := Some (t + timerDelay 5000)\<rparr>)
      else r\<lparr>timer := None\<rparr>)"

text \<open>The callback of the nested timer: \<^verbatim>\<open>if (ssh.pid) ssh.kill('SIGKILL')\<close>.\<close>

definition onForceKill :: "int \<Rightarrow> runner \<Rightarrow> runner" where
  "onForceKill t r =
     (case pid r of
        Some p \<Rightarrow> if p \<noteq> 0 then r\<lparr>forceKill := None, killed := killed r @ [(t, SIGKILL)]\<rparr>
                  else r\<lparr>forceKill := None\<rparr>
      | None \<Rightarrow> r\<lparr>forceKill := None\<rparr>)"

text \<open>
  The handlers of the child's events.  \<open>normalizeMessage\<close> stands for \<^verbatim>\<open>Logger.normalizeMessage\<close>,
  which is not among the sources.
\<close>

definition onChildEvent :: "(string \<Rightarrow> string) \<Rightarrow> childEvent \<Rightarrow> runner \<Rightarrow> runner" where
  "onChildEvent normalizeMessage ev r =
     (case ev of
        StdoutData chunk \<Rightarrow> r\<lparr>stdoutBuf := stdoutBuf r @ normalizeMessage chunk\<rparr>
      | StderrData chunk \<Rightarrow> r\<lparr>stderrBuf := stderrBuf r @ normalizeMessage chunk\<rparr>
      | Close code \<Rightarrow>
          settle (if code = Some 0
                  then Inr \<lparr>stdout = normalizeMessage (stdoutBuf r), stderr = normalizeMessage (stderrBuf r)\<rparr>
                  else Inl (Error (''SSH command failed with code ''
                         @ (case code of None \<Rightarrow> ''null'' | Some c \<Rightarrow> numberText c)
                         @ '': '' @ normalizeMessage (stderrBuf r))))
            (r\<lparr>finished := True, timer := None\<rparr>)
      | ChildError err \<Rightarrow> settle (Inl err) (r\<lparr>finished := True, timer := None\<rparr>))"

text \<open>
  Time passing up to \<open>t\<close>: each armed timer whose due time has come runs its callback at
  its due time.  The nested timer is armed by the timeout callback only, so it comes
  second.
\<close>

definition fireTimers :: "int \<Rightarrow> runner \<Rightarrow> runner" where
  "fireTimers t r =
     (let r1 = (case timer r of Some due \<Rightarrow> if due \<le> t then onTimeout due r else r | None \<Rightarrow> r)
      in case forceKill r1 of Some due \<Rightarrow> if due \<le> t then onForceKill due r1 else r1 | None \<Rightarrow> r1)"

text \<open>The child's events in turn, each after the timers due by then; then time up to \<open>t\<close>.\<close>

fun deliver :: "(string \<Rightarrow> string) \<Rightarrow> (int \<times> childEvent) list \<Rightarrow> runner \<Rightarrow> runner" where
  "deliver normalizeMessage [] r = r"
| "deliver normalizeMessage ((t, ev) # evs) r =
     deliver normalizeMessage evs (onChildEvent normalizeMessage ev (fireTimers t r))"

definition runUntil ::
  "(string \<Rightarrow> string) \<Rightarrow> int \<Rightarrow> (int \<times> childEvent) list \<Rightarrow> runner \<Rightarrow> runner" where
  "runUntil normalizeMessage t evs r = fireTimers t (deliver normalizeMessage [e \<leftarrow> evs. fst e \<le> t] r)"

text \<open>A child that never exits: it may write output, but neither closes nor errs.\<close>

fun outputOnly :: "childEvent \<Rightarrow> bool" where
  "outputOnly (StdoutData chunk) = True"
| "outputOnly (StderrData chunk) = True"
| "outputOnly ev = False"


section \<open>SshService: the connection pool and its command queues\<close>

text \<open>
  An entry of \<^verbatim>\<open>commandQueue\<close>.  The \<open>ticket\<close> stands for the entry's \<^verbatim>\<open>resolve\<close> and
  \<^verbatim>\<open>reject\<close>: it names the promise returned to the caller who queued the command.
\<close>

record queuedCommand =
  queuedCmd :: string
  queuedTimeout :: int
  ticket :: nat

text \<open>
  Where the \<^verbatim>\<open>processCommandQueue\<close> of a session stands: not running; suspended at
  \<^verbatim>\<open>await this.executeRemoteCommand(...)\<close> for an entry it has shifted off the queue; or
  suspended at the 100 ms wait that follows a resolved command.
\<close>

datatype drain = NotRunning | AwaitingCommand queuedCommand | AwaitingDelay

record pooledConnection =
  pooledConn :: SshConnection
  lastUsed :: int
  isActive :: bool
  commandQueue :: "queuedCommand list"
  queueLoop :: drain

















datatype mark = Begin nat | End nat







section \<open>Hypotheses on the remote side\<close>

text \<open>A persistently failing target: whatever is run, whenever, the promise is rejected.\<close>

definition persistentlyFailing :: "'r environment \<Rightarrow> bool" where
  "persistentlyFailing env =
     (\<forall>connection cmd timeoutMs t r. isl (fst (exec env connection cmd timeoutMs t r)))"


section \<open>Concrete hosts\<close>

text \<open>
  A host on which every command fails; the remote state counts the attempts made so far
  and the error message of attempt \<open>n\<close> carries \<open>n\<close> strokes, so that the errors of
  different attempts differ.
\<close>

definition failingHost :: "nat environment" where
  "failingHost =
     \<lparr>VM_USER = Some ''ubuntu'', REMOTE_USER = None,
      VM_IP_ADDRESS = Some ''10.0.0.5'', REMOTE_HOST = None,
      exec = (\<lambda>connection cmd timeoutMs t n.
                (Inl (Error (''exit '' @ replicate (Suc n) CHR ''I'')), Suc n, 250))\<rparr>"

definition testConnection :: SshConnection where
  "testConnection = \<lparr>sshKey = ''~/.ssh/id_rsa.pem'', remoteUser = ''ubuntu'', remoteHost = ''10.0.0.5''\<rparr>"

definition freshWorld :: "nat world" where
  "freshWorld = \<lparr>remote = 0, now = 0, trace = []\<rparr>"



text \<open>
  A host that answers by command text alone: \<open>answer\<close> fixes how each command settles;
  every command takes \<open>elapsed\<close> milliseconds; the remote state counts the commands run.
\<close>

definition hostAnswering :: "(string \<Rightarrow> outcome) \<Rightarrow> nat \<Rightarrow> nat environment" where
  "hostAnswering answer elapsed =
     \<lparr>VM_USER = Some ''ubuntu'', REMOTE_USER = None,
      VM_IP_ADDRESS = Some ''10.0.0.5'', REMOTE_HOST = None,
      exec = (\<lambda>connection cmd timeoutMs t n. (answer cmd, Suc n, elapsed))\<rparr>"

definition printing :: "string \<Rightarrow> outcome" where
  "printing out = Inr \<lparr>stdout = out, stderr = []\<rparr>"

text \<open>The service stops on request, but a matching process stays in the process list.\<close>

definition lingeringProcess :: "string \<Rightarrow> outcome" where
  "lingeringProcess cmd =
     (if cmd = processCheckCmd then printing ''4711''
      else if cmd = isActiveCmd then printing ''inactive''
      else printing [])"

text \<open>The service is active; the status dump asked for next is lost in transit.\<close>

definition activeButStatusLost :: "string \<Rightarrow> outcome" where
  "activeButStatusLost cmd =
     (if cmd = isActiveCmd then printing ''active''
      else Inl (Error ''SSH command failed with code 255: Connection reset''))"

text \<open>The service is inactive and the start command is refused.\<close>

definition startRefused :: "string \<Rightarrow> outcome" where
  "startRefused cmd =
     (if cmd = isActiveCmd then printing ''inactive''
      else Inl (Error ''SSH command failed with code 1: sudo: a password is required''))"

text \<open>The service is inactive and stays so; the start command itself succeeds.\<close>

definition startAccepted :: "string \<Rightarrow> outcome" where
  "startAccepted cmd =
     (if cmd = isActiveCmd then printing ''inactive'' else printing [])"

text \<open>The service manager says inactive, yet one matching process runs.\<close>

definition unmanagedProcess :: "string \<Rightarrow> outcome" where
  "unmanagedProcess cmd =
     (if cmd = isActiveCmd then printing ''inactive''
      else if cmd = pgrepCmd then printing ''4711''
      else printing [])"


text \<open>The service query cannot be made at all, yet one matching process runs.\<close>

definition serviceQueryFails :: "string \<Rightarrow> outcome" where
  "serviceQueryFails cmd =
     (if cmd = pgrepCmd then printing ''4711''
      else Inl (Error ''SSH command timeout after 15000ms''))"





section \<open>The pool and its history, in step\<close>

text \<open>The executions of a queue run to the end, one at a time.\<close>

definition serial :: "nat list \<Rightarrow> mark list" where
  "serial qs = concat (map (\<lambda>q. [Begin q, End q]) qs)"

text \<open>
  How the state of a session and the history of its key fit together: \<open>qs\<close> are the
  tickets queued so far and \<open>ms\<close> the executions so far.
\<close>

definition sessionOk :: "nat list \<Rightarrow> mark list \<Rightarrow> pooledConnection option \<Rightarrow> bool" where
  "sessionOk qs ms session =
     (case session of
        None \<Rightarrow> ms = serial qs
      | Some s \<Rightarrow>
          (case queueLoop s of
             NotRunning \<Rightarrow> \<not> isActive s \<and> commandQueue s = [] \<and> ms = serial qs
           | AwaitingCommand entry \<Rightarrow>
               isActive s \<and>
               (\<exists>ended. qs = ended @ ticket entry # map ticket (commandQueue s) \<and>
                           ms = serial ended @ [Begin (ticket entry)])
           | AwaitingDelay \<Rightarrow>
               isActive s \<and>
               (\<exists>ended. qs = ended @ map ticket (commandQueue s) \<and> ms = serial ended)))"



section \<open>Facts about the string operations\<close>

lemma startsWith_iff: "startsWith s p \<longleftrightarrow> (\<exists>t. s = p @ t)"
  by (induction s p rule: startsWith.induct) auto

lemma startsWith_append: "startsWith (p @ t) p"
  by (simp add: startsWith_iff)

lemma includes_str_prefix: "startsWith s p \<Longrightarrow> includes_str s p"
  by (cases s; cases p) auto

lemma replace_prefix: "startsWith s p \<Longrightarrow> replace s p r = r @ drop (length p) s"
  by (cases s; cases p) auto

lemma modifiedCommand_rewritten:
  assumes "startsWith c ''sudo ''" and "\<not> includes_str c ''sudo -n''"
  shows "modifiedCommand c = ''sudo -n '' @ drop (length ''sudo '') c"
  using assms by (simp only: modifiedCommand_def replace_prefix simp_thms if_True)

lemma modifiedCommand_unchanged:
  "\<not> (startsWith c ''sudo '' \<and> \<not> includes_str c ''sudo -n'') \<Longrightarrow> modifiedCommand c = c"
  by (auto simp add: modifiedCommand_def)

lemma modifiedCommand_includes_n:
  assumes "startsWith c ''sudo ''" and "\<not> includes_str c ''sudo -n''"
  shows "includes_str (modifiedCommand c) ''sudo -n''"
proof -
  have "modifiedCommand c = ''sudo -n'' @ ('' '' @ drop (length ''sudo '') c)"
    using assms by (simp add: modifiedCommand_rewritten)
  then show ?thesis
    by (simp only: includes_str_prefix startsWith_append)
qed


section \<open>Facts about the retry loops\<close>

lemma timerDelay_pos: "0 < timerDelay ms"
  by (simp add: timerDelay_def)

lemma now_sleep: "now w \<le> now (sleep ms w)"
  using timerDelay_pos [of ms] by (simp add: sleep_def)

lemma pooled_fails:
  assumes "persistentlyFailing env"
  obtains e w' where "executeRemoteCommandPooled env connection cmd timeoutMs w = (Inl e, w')"
    and "trace w' = trace w @ [Submit cmd timeoutMs (Inl e)]"
proof -
  obtain out r' d where ex: "exec env connection cmd timeoutMs (now w) (remote w) = (out, r', d)"
    by (cases "exec env connection cmd timeoutMs (now w) (remote w)") auto
  have "isl (fst (exec env connection cmd timeoutMs (now w) (remote w)))"
    using assms by (simp add: persistentlyFailing_def)
  then obtain e where "out = Inl e"
    using ex by (cases out) auto
  then show ?thesis
    using ex that by (simp add: executeRemoteCommandPooled_def)
qed

lemma failedRun_Cons:
  "es \<noteq> [] \<Longrightarrow> failedRun base cmd t a (e # es) =
     Submit cmd t (Inl e) # Sleep (base * a) # failedRun base cmd t (a + 1) es"
  by (cases es) auto



lemma sudoAttempts_all_fail:
  "persistentlyFailing env \<Longrightarrow> a \<le> R \<Longrightarrow>
     \<exists>errs w'. sudoAttempts env connection m t R a w = (Inl (last errs), w') \<and>
           length errs = nat (R - a + 1) \<and> trace w' = trace w @ failedRun 2000 m t a errs"
proof (induction env connection m t R a w rule: sudoAttempts.induct)
  case (1 env connection m t R a w)
  note pf = \<open>persistentlyFailing env\<close>
  obtain e w1 where p: "executeRemoteCommandPooled env connection m t w = (Inl e, w1)"
    and tr: "trace w1 = trace w @ [Submit m t (Inl e)]"
    using pooled_fails [OF pf] by blast
  show ?case
  proof (cases "a = R")
    case True
    have "sudoAttempts env connection m t R a w = (Inl (last [e]), w1)"
      using p True by (subst sudoAttempts.simps) simp
    moreover have "length [e] = nat (R - a + 1)" using True by simp
    moreover have "trace w1 = trace w @ failedRun 2000 m t a [e]" using tr by simp
    ultimately show ?thesis by blast
  next
    case False
    then have lt: "a + 1 \<le> R" using "1.prems" by simp
    from "1.IH" [OF \<open>a \<le> R\<close> p [symmetric] refl False pf lt]
    obtain errs w' where
      r: "sudoAttempts env connection m t R (a + 1) (sleep (2000 * a) w1) = (Inl (last errs), w')"
      and len: "length errs = nat (R - (a + 1) + 1)"
      and tr': "trace w' = trace (sleep (2000 * a) w1) @ failedRun 2000 m t (a + 1) errs"
      by blast
    have ne: "errs \<noteq> []" using len lt by auto
    have "sudoAttempts env connection m t R a w = (Inl (last (e # errs)), w')"
      using p False "1.prems" r ne by (subst sudoAttempts.simps) simp
    moreover have "length (e # errs) = nat (R - a + 1)" using len lt by simp
    moreover have "trace w' = trace w @ failedRun 2000 m t a (e # errs)"
      using tr' tr ne by (simp add: failedRun_Cons sleep_def)
    ultimately show ?thesis by blast
  qed
qed

lemma plainAttempts_all_fail:
  "persistentlyFailing env \<Longrightarrow> a \<le> R \<Longrightarrow>
     \<exists>errs w'. plainAttempts env connection m t R a w = (Inl (last errs), w') \<and>
           length errs = nat (R - a + 1) \<and> trace w' = trace w @ failedRun 1000 m t a errs"
proof (induction env connection m t R a w rule: plainAttempts.induct)
  case (1 env connection m t R a w)
  note pf = \<open>persistentlyFailing env\<close>
  obtain e w1 where p: "executeRemoteCommandPooled env connection m t w = (Inl e, w1)"
    and tr: "trace w1 = trace w @ [Submit m t (Inl e)]"
    using pooled_fails [OF pf] by blast
  show ?case
  proof (cases "a = R")
    case True
    have "plainAttempts env connection m t R a w = (Inl (last [e]), w1)"
      using p True by (subst plainAttempts.simps) simp
    moreover have "length [e] = nat (R - a + 1)" using True by simp
    moreover have "trace w1 = trace w @ failedRun 1000 m t a [e]" using tr by simp
    ultimately show ?thesis by blast
  next
    case False
    then have lt: "a + 1 \<le> R" using "1.prems" by simp
    from "1.IH" [OF \<open>a \<le> R\<close> p [symmetric] refl False pf lt]
    obtain errs w' where
      r: "plainAttempts env connection m t R (a + 1) (sleep (1000 * a) w1) = (Inl (last errs), w')"
      and len: "length errs = nat (R - (a + 1) + 1)"
      and tr': "trace w' = trace (sleep (1000 * a) w1) @ failedRun 1000 m t (a + 1) errs"
      by blast
    have ne: "errs \<noteq> []" using len lt by auto
    have "plainAttempts env connection m t R a w = (Inl (last (e # errs)), w')"
      using p False "1.prems" r ne by (subst plainAttempts.simps) simp
    moreover have "length (e # errs) = nat (R - a + 1)" using len lt by simp
    moreover have "trace w' = trace w @ failedRun 1000 m t a (e # errs)"
      using tr' tr ne by (simp add: failedRun_Cons sleep_def)
    ultimately show ?thesis by blast
  qed
qed


lemma pooled_events:
  assumes "executeRemoteCommandPooled env connection cmd timeoutMs w = (out, w')"
  shows "trace w' = trace w @ [Submit cmd timeoutMs out]" and "now w \<le> now w'"
  using assms by (auto simp add: executeRemoteCommandPooled_def split: prod.splits)

lemma sudoAttempts_events:
  "sudoAttempts env connection m t R a w = (res, w') \<Longrightarrow>
     \<exists>evs. trace w' = trace w @ evs \<and>
       (\<forall>ev \<in> set evs. (\<exists>ms. ev = Sleep ms) \<or> (\<exists>out. ev = Submit m t out)) \<and>
       (\<forall>r. Submit m t (Inr r) \<in> set evs \<longleftrightarrow> res = Inr r) \<and>
       (a \<le> R \<longrightarrow> (\<exists>out. Submit m t out \<in> set evs)) \<and>
       now w \<le> now w'"
proof (induction env connection m t R a w rule: sudoAttempts.induct)
  case (1 env connection m t R a w)
  show ?case
  proof (cases "a \<le> R")
    case False
    then have "res = Inl (Error ''Unexpected end of executeSudoCommand'')" and "w' = w"
      using "1.prems" by (simp_all add: sudoAttempts.simps)
    then show ?thesis using False by simp
  next
    case le: True
    obtain out w1 where p: "executeRemoteCommandPooled env connection m t w = (out, w1)"
      by (cases "executeRemoteCommandPooled env connection m t w") auto
    note pe = pooled_events [OF p]
    show ?thesis
    proof (cases out)
      case (Inr r)
      then have "res = Inr r" and "w' = w1"
        using "1.prems" le p by (simp_all add: sudoAttempts.simps)
      then show ?thesis using pe Inr by auto
    next
      case (Inl e)
      show ?thesis
      proof (cases "a = R")
        case True
        then have "res = Inl e" and "w' = w1"
          using "1.prems" le p Inl by (simp_all add: sudoAttempts.simps)
        then show ?thesis using pe Inl by auto
      next
        case False
        have rec: "sudoAttempts env connection m t R (a + 1) (sleep (2000 * a) w1) = (res, w')"
          using "1.prems" le p Inl False by (simp add: sudoAttempts.simps)
        have p': "executeRemoteCommandPooled env connection m t w = (Inl e, w1)"
          using p Inl by simp
        from "1.IH" [OF le p' [symmetric] refl False rec]
        obtain evs where tr: "trace w' = trace (sleep (2000 * a) w1) @ evs"
          and shape: "\<forall>ev \<in> set evs. (\<exists>ms. ev = Sleep ms) \<or> (\<exists>out. ev = Submit m t out)"
          and ok: "\<forall>r. Submit m t (Inr r) \<in> set evs \<longleftrightarrow> res = Inr r"
          and mono: "now (sleep (2000 * a) w1) \<le> now w'"
          by auto
        have "trace w' = trace w @ (Submit m t (Inl e) # Sleep (2000 * a) # evs)"
          using tr pe Inl by (simp add: sleep_def)
        moreover have "now w \<le> now w'"
          using mono pe(2) now_sleep [of w1 "2000 * a"] by linarith
        ultimately show ?thesis using shape ok by auto
      qed
    qed
  qed
qed
lemma plainAttempts_events:
  "plainAttempts env connection m t R a w = (res, w') \<Longrightarrow>
     \<exists>evs. trace w' = trace w @ evs \<and>
       (\<forall>ev \<in> set evs. (\<exists>ms. ev = Sleep ms) \<or> (\<exists>out. ev = Submit m t out)) \<and>
       (\<forall>r. Submit m t (Inr r) \<in> set evs \<longleftrightarrow> res = Inr r) \<and>
       (a \<le> R \<longrightarrow> (\<exists>out. Submit m t out \<in> set evs)) \<and>
       now w \<le> now w'"
proof (induction env connection m t R a w rule: plainAttempts.induct)
  case (1 env connection m t R a w)
  show ?case
  proof (cases "a \<le> R")
    case False
    then have "res = Inl (Error ''Unexpected end of executeRemoteCommandWithOptions'')" and "w' = w"
      using "1.prems" by (simp_all add: plainAttempts.simps)
    then show ?thesis using False by simp
  next
    case le: True
    obtain out w1 where p: "executeRemoteCommandPooled env connection m t w = (out, w1)"
      by (cases "executeRemoteCommandPooled env connection m t w") auto
    note pe = pooled_events [OF p]
    show ?thesis
    proof (cases out)
      case (Inr r)
      then have "res = Inr r" and "w' = w1"
        using "1.prems" le p by (simp_all add: plainAttempts.simps)
      then show ?thesis using pe Inr by auto
    next
      case (Inl e)
      show ?thesis
      proof (cases "a = R")
        case True
        then have "res = Inl e" and "w' = w1"
          using "1.prems" le p Inl by (simp_all add: plainAttempts.simps)
        then show ?thesis using pe Inl by auto
      next
        case False
        have rec: "plainAttempts env connection m t R (a + 1) (sleep (1000 * a) w1) = (res, w')"
          using "1.prems" le p Inl False by (simp add: plainAttempts.simps)
        have p': "executeRemoteCommandPooled env connection m t w = (Inl e, w1)"
          using p Inl by simp
        from "1.IH" [OF le p' [symmetric] refl False rec]
        obtain evs where tr: "trace w' = trace (sleep (1000 * a) w1) @ evs"
          and shape: "\<forall>ev \<in> set evs. (\<exists>ms. ev = Sleep ms) \<or> (\<exists>out. ev = Submit m t out)"
          and ok: "\<forall>r. Submit m t (Inr r) \<in> set evs \<longleftrightarrow> res = Inr r"
          and mono: "now (sleep (1000 * a) w1) \<le> now w'"
          by auto
        have "trace w' = trace w @ (Submit m t (Inl e) # Sleep (1000 * a) # evs)"
          using tr pe Inl by (simp add: sleep_def)
        moreover have "now w \<le> now w'"
          using mono pe(2) now_sleep [of w1 "1000 * a"] by linarith
        ultimately show ?thesis using shape ok by auto
      qed
    qed
  qed
qed


lemma attemptsOf_failedRun: "attemptsOf (failedRun base c t a errs) = map Inl errs"
  by (induction base c t a errs rule: failedRun.induct) auto

lemma delaysOf_failedRun:
  "delaysOf (failedRun base c t a errs) = map (\<lambda>k. k * base) [a..a + int (length errs) - 2]"
proof (induction base c t a errs rule: failedRun.induct)
  case (3 base cmd timeoutMs a e e' es)
  have "[a..a + int (length (e # e' # es)) - 2] = a # [a + 1..a + 1 + int (length (e' # es)) - 2]"
    by (subst upto_rec1) (auto simp add: algebra_simps)
  then show ?case using 3 by (simp add: mult.commute)
qed auto

lemma sorted_delays: "0 < base \<Longrightarrow> sorted_wrt (<) (map (\<lambda>k. k * base) [i..j::int])"
  by (simp add: sorted_wrt_map sorted_wrt_mono_rel [OF _ sorted_wrt_upto])

lemma modifiedCommand_plain: "\<not> startsWith cmd ''sudo'' \<Longrightarrow> modifiedCommand cmd = cmd"
proof (rule modifiedCommand_unchanged)
  assume n: "\<not> startsWith cmd ''sudo''"
  have "\<not> startsWith cmd ''sudo ''"
  proof
    assume "startsWith cmd ''sudo ''"
    then obtain t where "cmd = ''sudo'' @ ('' '' @ t)"
      by (auto simp add: startsWith_iff)
    then show False using n startsWith_append by metis
  qed
  then show "\<not> (startsWith cmd ''sudo '' \<and> \<not> includes_str cmd ''sudo -n'')" by simp
qed

lemma eventsSince_append: "trace w' = trace w @ evs \<Longrightarrow> eventsSince w w' = evs"
  by (simp add: eventsSince_def)

lemma withOptions_events:
  assumes "executeRemoteCommandWithOptions env connection cmd options w = (res, w')"
  shows "\<exists>evs t. trace w' = trace w @ evs \<and>
       (\<forall>ev \<in> set evs. (\<exists>ms. ev = Sleep ms) \<or> (\<exists>out. ev = Submit (modifiedCommand cmd) t out)) \<and>
       (\<forall>r. Submit (modifiedCommand cmd) t (Inr r) \<in> set evs \<longleftrightarrow> res = Inr r) \<and>
       (1 \<le> (case retries options of None \<Rightarrow> 1 | Some n \<Rightarrow> n) \<longrightarrow>
          (\<exists>out. Submit (modifiedCommand cmd) t out \<in> set evs)) \<and>
       t = (case timeout options of None \<Rightarrow> 30000 | Some t \<Rightarrow> t) \<and>
       now w \<le> now w'"
proof (cases "(case requiresSudo options of None \<Rightarrow> includes_str cmd ''sudo'' | Some b \<Rightarrow> b)
                  \<or> startsWith cmd ''sudo''")
  case True
  then have "sudoAttempts env connection (modifiedCommand cmd)
               (case timeout options of None \<Rightarrow> 30000 | Some t \<Rightarrow> t)
               (case retries options of None \<Rightarrow> 1 | Some n \<Rightarrow> n) 1 w = (res, w')"
    using assms by (simp add: executeRemoteCommandWithOptions_def executeSudoCommand_def Let_def)
  from sudoAttempts_events [OF this] show ?thesis by blast
next
  case False
  then have "\<not> startsWith cmd ''sudo''" by simp
  then have "modifiedCommand cmd = cmd" by (rule modifiedCommand_plain)
  with False have "plainAttempts env connection (modifiedCommand cmd)
               (case timeout options of None \<Rightarrow> 30000 | Some t \<Rightarrow> t)
               (case retries options of None \<Rightarrow> 1 | Some n \<Rightarrow> n) 1 w = (res, w')"
    using assms by (simp add: executeRemoteCommandWithOptions_def Let_def)
  from plainAttempts_events [OF this] show ?thesis by blast
qed

lemma textsOf_set: "c \<in> set (textsOf evs) \<longleftrightarrow> (\<exists>t out. Submit c t out \<in> set evs)"
  by (induction evs rule: textsOf.induct) auto


section \<open>Facts about the lifecycle services\<close>

lemma executeCommand_now:
  "executeCommand env connection cmd options w = (res, w') \<Longrightarrow> now w \<le> now w'"
  unfolding executeCommand_def using withOptions_events by blast

termination verifyLoop
proof (relation "measure (\<lambda>(env, connection, startTime, w). nat (30000 - (now w - startTime)))",
    goal_cases)
  case 1
  show ?case by simp
next
  case (2 env connection startTime w x y b)
  have "executeCommand env connection processCheckCmd
        \<lparr>timeout = Some 10000, requiresSudo = None, retries = None\<rparr> w = (Inr b, y)"
    using 2 by simp
  then have "now w \<le> now y"
    by (rule executeCommand_now)
  then show ?case
    using 2 by (simp add: sleep_def timerDelay_def)
qed

declare verifyLoop.simps [simp del]

lemma sudoAttempts_single:
  "sudoAttempts env connection m t 1 1 w = executeRemoteCommandPooled env connection m t w"
  by (simp add: sudoAttempts.simps split: prod.splits sum.splits)

lemma plainAttempts_single:
  "plainAttempts env connection m t 1 1 w = executeRemoteCommandPooled env connection m t w"
  by (simp add: plainAttempts.simps split: prod.splits sum.splits)

lemma isActiveCmd_plain: "\<not> includes_str isActiveCmd ''sudo''" "\<not> startsWith isActiveCmd ''sudo''"
  by (simp_all add: isActiveCmd_def)

lemma startServiceCmd_sent:
  "modifiedCommand startServiceCmd = ''sudo -n systemctl start celestia-light.service''"
  by (simp add: startServiceCmd_def modifiedCommand_def)

lemma detailedStatusCmd_sent:
  "modifiedCommand detailedStatusCmd =
     ''sudo -n systemctl status celestia-light.service --no-pager --lines=20''"
  by (simp add: detailedStatusCmd_def modifiedCommand_def)

lemma recentLogsCmd_sent:
  "modifiedCommand recentLogsCmd =
     ''sudo -n journalctl -u celestia-light.service --no-pager --lines=10''"
  by (simp add: recentLogsCmd_def modifiedCommand_def)

lemma stopServiceCmd_sent:
  "modifiedCommand stopServiceCmd = ''sudo -n systemctl stop celestia-light''"
  by (simp add: stopServiceCmd_def modifiedCommand_def)

lemma runRemote_isActive_default:
  "executeCommand env connection isActiveCmd noOptions w =
     executeRemoteCommandPooled env connection isActiveCmd 30000 w"
  by (simp add: executeCommand_def executeRemoteCommandWithOptions_def noOptions_def
      isActiveCmd_plain plainAttempts_single)

lemma runRemote_sudo_default:
  "startsWith cmd ''sudo'' \<Longrightarrow>
     executeCommand env connection cmd noOptions w =
     executeRemoteCommandPooled env connection (modifiedCommand cmd) 30000 w"
  by (simp add: executeCommand_def executeRemoteCommandWithOptions_def noOptions_def
      executeSudoCommand_def sudoAttempts_single)

lemma lifecycle_sudo_cmds:
  "startsWith startServiceCmd ''sudo''" "startsWith detailedStatusCmd ''sudo''"
  "startsWith recentLogsCmd ''sudo''"
  by (simp_all add: startServiceCmd_def detailedStatusCmd_def recentLogsCmd_def)

lemma currentStatusCmd_plain:
  "executeCommand env connection currentStatusCmd noOptions w =
     executeRemoteCommandPooled env connection currentStatusCmd 30000 w"
  by (simp add: executeCommand_def executeRemoteCommandWithOptions_def noOptions_def
      currentStatusCmd_def plainAttempts_single)


lemma resultsOf_set: "r \<in> set (resultsOf evs c) \<longleftrightarrow> (\<exists>t. Submit c t (Inr r) \<in> set evs)"
  by (induction evs c rule: resultsOf.induct) auto

lemma resultsOf_append:
  "set (resultsOf (xs @ ys) c) = set (resultsOf xs c) \<union> set (resultsOf ys c)"
  by (auto simp add: resultsOf_set)

lemma runRemote_results:
  assumes "executeCommand env connection cmd options w = (res, w')"
  shows "\<exists>evs. trace w' = trace w @ evs \<and>
           (\<forall>c. set (resultsOf evs c) =
                  (if c = modifiedCommand cmd then {r. res = Inr r} else {}))"
proof -
  from withOptions_events [OF assms [unfolded executeCommand_def]]
  obtain evs t where tr: "trace w' = trace w @ evs"
    and shape: "\<forall>ev \<in> set evs. (\<exists>ms. ev = Sleep ms) \<or> (\<exists>out. ev = Submit (modifiedCommand cmd) t out)"
    and ok: "\<forall>r. Submit (modifiedCommand cmd) t (Inr r) \<in> set evs \<longleftrightarrow> res = Inr r"
    by blast
  have "set (resultsOf evs c) = (if c = modifiedCommand cmd then {r. res = Inr r} else {})" for c
  proof (cases "c = modifiedCommand cmd")
    case True
    have "r \<in> set (resultsOf evs c) \<longleftrightarrow> res = Inr r" for r
    proof
      assume "r \<in> set (resultsOf evs c)"
      then obtain t' where "Submit c t' (Inr r) \<in> set evs" by (auto simp add: resultsOf_set)
      with shape True have "Submit (modifiedCommand cmd) t (Inr r) \<in> set evs" by fastforce
      with ok show "res = Inr r" by blast
    next
      assume "res = Inr r"
      with ok have "Submit (modifiedCommand cmd) t (Inr r) \<in> set evs" by blast
      with True show "r \<in> set (resultsOf evs c)" by (auto simp add: resultsOf_set)
    qed
    with True show ?thesis by auto
  next
    case False
    have "set (resultsOf evs c) = {}"
    proof (rule equals0I)
      fix r
      assume "r \<in> set (resultsOf evs c)"
      then obtain t' where "Submit c t' (Inr r) \<in> set evs" by (auto simp add: resultsOf_set)
      with shape False show False by fastforce
    qed
    with False show ?thesis by (simp only: if_False)
  qed
  with tr show ?thesis by blast
qed

lemma status_cmds_sent:
  "modifiedCommand isActiveCmd = isActiveCmd"
  "modifiedCommand pgrepCmd = pgrepCmd"
  "modifiedCommand psCmd = psCmd"
  "modifiedCommand serviceDetailsCmd \<noteq> isActiveCmd"
  "modifiedCommand serviceDetailsCmd \<noteq> pgrepCmd"
  "isActiveCmd \<noteq> pgrepCmd" "psCmd \<noteq> isActiveCmd" "psCmd \<noteq> pgrepCmd"
  by (simp_all add: isActiveCmd_def pgrepCmd_def psCmd_def serviceDetailsCmd_def modifiedCommand_def)

lemma dropWhile_black:
  "dropWhile P s \<noteq> [] \<Longrightarrow> \<exists>x \<in> set (dropWhile P s). \<not> P x"
  by (metis hd_dropWhile list.set_sel(1))

lemma trim_Nil_iff: "trim s = [] \<longleftrightarrow> dropWhile isWhiteSpace s = []"
proof
  assume "trim s = []"
  then have "\<forall>x \<in> set (dropWhile isWhiteSpace s). isWhiteSpace x"
    by (simp add: trim_def dropWhile_eq_Nil_conv)
  then show "dropWhile isWhiteSpace s = []"
    using dropWhile_black by blast
next
  assume a: "dropWhile isWhiteSpace s = []"
  show "trim s = []" unfolding trim_def a by simp
qed

lemma trim_starts_black:
  assumes "trim s \<noteq> []"
  obtains c cs where "trim s = c # cs" and "\<not> isWhiteSpace c"
proof -
  from assms have "dropWhile isWhiteSpace s \<noteq> []" by (simp add: trim_Nil_iff)
  then obtain c t where d: "dropWhile isWhiteSpace s = c # t"
    by (cases "dropWhile isWhiteSpace s") auto
  then have c: "\<not> isWhiteSpace c"
    by (metis hd_dropWhile list.sel(1) list.simps(3))
  have "dropWhile isWhiteSpace (rev t @ [c]) = dropWhile isWhiteSpace (rev t) @ [c] \<or>
        dropWhile isWhiteSpace (rev t @ [c]) = [c]"
    using c by (simp add: dropWhile_append)
  then obtain u where "dropWhile isWhiteSpace (rev (c # t)) = u @ [c]"
    by auto
  then have "trim s = c # rev u"
    by (simp add: trim_def d)
  with c that show thesis by blast
qed

lemma trim_black_head: "\<not> isWhiteSpace c \<Longrightarrow> trim (c # cs) \<noteq> []"
  by (simp add: trim_Nil_iff)

lemma split_str_head:
  "c \<noteq> sep \<Longrightarrow> \<exists>piece pieces. split_str (c # cs) sep = (c # piece) # pieces"
  by (cases "split_str cs sep") auto

lemma pidsOf_nonempty: "pidsOf out \<noteq> [] \<longleftrightarrow> trim out \<noteq> []"
proof
  assume "trim out \<noteq> []"
  then obtain c cs where t: "trim out = c # cs" and c: "\<not> isWhiteSpace c"
    by (rule trim_starts_black)
  from c have "c \<noteq> CHR 0x0A" by (auto simp add: isWhiteSpace_def)
  then obtain piece pieces where "split_str (c # cs) CHR 0x0A = (c # piece) # pieces"
    using split_str_head by blast
  then show "pidsOf out \<noteq> []"
    using c by (simp add: pidsOf_def t trim_black_head)
next
  assume ne: "pidsOf out \<noteq> []"
  show "trim out \<noteq> []"
  proof
    assume "trim out = []"
    moreover have "trim [] = []" by (simp add: trim_def)
    ultimately have "pidsOf out = []" by (simp add: pidsOf_def)
    with ne show False by simp
  qed
qed

lemma getStatus_running_iff:
  assumes conn: "createConnection env = Some connection"
  shows "isRunning (fst (getStatus env w)) =
           ((\<exists>r \<in> set (resultsOf (eventsSince w (snd (getStatus env w))) isActiveCmd).
               trim (stdout r) = ''active'') \<or>
            (\<exists>r \<in> set (resultsOf (eventsSince w (snd (getStatus env w))) pgrepCmd).
               pidsOf (stdout r) \<noteq> []))"
proof -
  let ?o1 = "\<lparr>timeout = Some 15000, requiresSudo = None, retries = Some 2\<rparr>"
  let ?o2 = "\<lparr>timeout = Some 30000, requiresSudo = Some True, retries = Some 2\<rparr>"
  let ?o4 = "\<lparr>timeout = Some 20000, requiresSudo = None, retries = Some 2\<rparr>"
  obtain res1 w1 where run1: "executeCommand env connection isActiveCmd ?o1 w = (res1, w1)"
    by (cases "executeCommand env connection isActiveCmd ?o1 w") auto
  obtain res2 w2' where run2: "executeCommand env connection serviceDetailsCmd ?o2 w1 = (res2, w2')"
    by (cases "executeCommand env connection serviceDetailsCmd ?o2 w1") auto
  define w2 where "w2 = (case res1 of Inl e \<Rightarrow> w1 | Inr r \<Rightarrow> w2')"
  obtain res3 w3 where run3: "executeCommand env connection pgrepCmd ?o1 w2 = (res3, w3)"
    by (cases "executeCommand env connection pgrepCmd ?o1 w2") auto
  obtain res4 w4 where run4: "executeCommand env connection psCmd ?o4 w3 = (res4, w4)"
    by (cases "executeCommand env connection psCmd ?o4 w3") auto
  from runRemote_results [OF run1] obtain e1 where
    t1: "trace w1 = trace w @ e1"
    and s1: "\<And>c. set (resultsOf e1 c) = (if c = isActiveCmd then {r. res1 = Inr r} else {})"
    by (auto simp add: status_cmds_sent)
  from runRemote_results [OF run2] obtain e2' where
    t2': "trace w2' = trace w1 @ e2'"
    and s2': "\<And>c. set (resultsOf e2' c) =
                (if c = modifiedCommand serviceDetailsCmd then {r. res2 = Inr r} else {})"
    by auto
  define e2 where "e2 = (case res1 of Inl e \<Rightarrow> [] | Inr r \<Rightarrow> e2')"
  have t2: "trace w2 = trace w1 @ e2"
    using t2' by (simp add: w2_def e2_def split: sum.splits)
  have "set (resultsOf e2 isActiveCmd) = {} \<and> set (resultsOf e2 pgrepCmd) = {}"
  proof (cases res1)
    case (Inl e)
    then show ?thesis by (simp add: e2_def)
  next
    case (Inr r)
    then have "e2 = e2'" by (simp add: e2_def)
    then show ?thesis
      using s2' [of isActiveCmd] s2' [of pgrepCmd] status_cmds_sent(4,5)
      by metis
  qed
  then have s2: "set (resultsOf e2 isActiveCmd) = {}" "set (resultsOf e2 pgrepCmd) = {}"
    by blast+
  from runRemote_results [OF run3] obtain e3 where
    t3: "trace w3 = trace w2 @ e3"
    and s3: "\<And>c. set (resultsOf e3 c) = (if c = pgrepCmd then {r. res3 = Inr r} else {})"
    by (auto simp add: status_cmds_sent)
  from runRemote_results [OF run4] obtain e4 where
    t4: "trace w4 = trace w3 @ e4"
    and s4: "\<And>c. set (resultsOf e4 c) = (if c = psCmd then {r. res4 = Inr r} else {})"
    by (auto simp add: status_cmds_sent)
  have final: "snd (getStatus env w) = w4"
    and running: "isRunning (fst (getStatus env w)) =
       ((\<exists>r. res1 = Inr r \<and> trim (stdout r) = ''active'') \<or>
        (\<exists>r. res3 = Inr r \<and> pidsOf (stdout r) \<noteq> []))"
    using conn run1 run2 run3 run4
    by (auto simp add: getStatus_def w2_def split: sum.splits prod.splits)
  have ev: "eventsSince w w4 = e1 @ e2 @ e3 @ e4"
    using t1 t2 t3 t4 by (simp add: eventsSince_def)
  have a: "set (resultsOf (eventsSince w w4) isActiveCmd) = {r. res1 = Inr r}"
    using s1 [of isActiveCmd] s2 s3 [of isActiveCmd] s4 [of isActiveCmd] status_cmds_sent
    by (simp add: ev resultsOf_append)
  have p: "set (resultsOf (eventsSince w w4) pgrepCmd) = {r. res3 = Inr r}"
    using s1 [of pgrepCmd] s2 s3 [of pgrepCmd] s4 [of pgrepCmd] status_cmds_sent
    by (simp add: ev resultsOf_append)
  show ?thesis
    unfolding final running a p by auto
qed

lemma isCelestiaProcessesRunning_iff:
  assumes conn: "createConnection env = Some connection"
  shows "fst (isCelestiaProcessesRunning env w) =
           ((\<exists>r \<in> set (resultsOf (eventsSince w (snd (isCelestiaProcessesRunning env w))) isActiveCmd).
               trim (stdout r) = ''active'') \<or>
            (\<exists>r \<in> set (resultsOf (eventsSince w (snd (isCelestiaProcessesRunning env w))) pgrepCmd).
               pidsOf (stdout r) \<noteq> []))"
proof -
  let ?o1 = "\<lparr>timeout = Some 15000, requiresSudo = None, retries = Some 2\<rparr>"
  obtain res1 w1 where run1: "executeCommand env connection isActiveCmd ?o1 w = (res1, w1)"
    by (cases "executeCommand env connection isActiveCmd ?o1 w") auto
  obtain res3 w3 where run3: "executeCommand env connection pgrepCmd ?o1 w1 = (res3, w3)"
    by (cases "executeCommand env connection pgrepCmd ?o1 w1") auto
  from runRemote_results [OF run1] obtain e1 where
    t1: "trace w1 = trace w @ e1"
    and s1: "\<And>c. set (resultsOf e1 c) = (if c = isActiveCmd then {r. res1 = Inr r} else {})"
    by (auto simp add: status_cmds_sent)
  from runRemote_results [OF run3] obtain e3 where
    t3: "trace w3 = trace w1 @ e3"
    and s3: "\<And>c. set (resultsOf e3 c) = (if c = pgrepCmd then {r. res3 = Inr r} else {})"
    by (auto simp add: status_cmds_sent)
  define active where "active = (\<exists>r. res1 = Inr r \<and> trim (stdout r) = ''active'')"
  show ?thesis
  proof (cases active)
    case True
    then have "isCelestiaProcessesRunning env w = (True, w1)"
      using conn run1 by (auto simp add: isCelestiaProcessesRunning_def Let_def active_def)
    moreover have "eventsSince w w1 = e1" using t1 by (rule eventsSince_append)
    ultimately show ?thesis
      using True s1 [of isActiveCmd] by (auto simp add: active_def)
  next
    case False
    then have r: "isCelestiaProcessesRunning env w =
        ((\<exists>r. res3 = Inr r \<and> pidsOf (stdout r) \<noteq> []), w3)"
      using conn run1 run3
      by (auto simp add: isCelestiaProcessesRunning_def Let_def active_def pidsOf_nonempty
          split: sum.splits)
    have ev: "eventsSince w w3 = e1 @ e3"
      using t1 t3 by (simp add: eventsSince_def)
    have a: "set (resultsOf (eventsSince w w3) isActiveCmd) = {r. res1 = Inr r}"
      using s1 [of isActiveCmd] s3 [of isActiveCmd] status_cmds_sent
      by (simp add: ev resultsOf_append)
    have p: "set (resultsOf (eventsSince w w3) pgrepCmd) = {r. res3 = Inr r}"
      using s1 [of pgrepCmd] s3 [of pgrepCmd] status_cmds_sent
      by (simp add: ev resultsOf_append)
    show ?thesis
      using False unfolding r fst_conv snd_conv a p by (auto simp add: active_def)
  qed
qed


section \<open>Facts about the timeout of a run\<close>

text \<open>
  The runner after all timers due by time \<open>u\<close> have run and the child has neither closed
  nor erred: before the deadline \<open>D\<close>, within the 5 s after it, and later.
\<close>

definition reached :: "string \<Rightarrow> int \<Rightarrow> nat \<Rightarrow> int \<Rightarrow> int \<Rightarrow> runner \<Rightarrow> bool" where
  "reached command T p D u r =
     (cmdText r = command \<and> limitMs r = T \<and> pid r = Some p \<and>
      (if u < D then
         \<not> finished r \<and> timer r = Some D \<and> forceKill r = None \<and> killed r = [] \<and>
         settled r = None
       else if u < D + 5000 then
         finished r \<and> timer r = None \<and> forceKill r = Some (D + 5000) \<and>
         killed r = [(D, SIGTERM)] \<and>
         settled r = Some (Inl (Error (''SSH command timeout after '' @ numberText T @ ''ms: '' @ command)))
       else
         finished r \<and> timer r = None \<and> forceKill r = None \<and>
         killed r = [(D, SIGTERM), (D + 5000, SIGKILL)] \<and>
         settled r = Some (Inl (Error (''SSH command timeout after '' @ numberText T @ ''ms: '' @ command)))))"

lemma reached_fireTimers:
  assumes "reached command T p D u r" and "p \<noteq> 0"
  shows "reached command T p D (max u t) (fireTimers t r)"
proof -
  consider (a) "u < D" | (b) "D \<le> u" "u < D + 5000" | (c) "D + 5000 \<le> u" by linarith
  then show ?thesis
  proof cases
    case a
    with assms show ?thesis
      by (auto simp add: reached_def fireTimers_def onTimeout_def onForceKill_def settle_def Let_def
          timerDelay_def)
  next
    case b
    with assms show ?thesis
      by (auto simp add: reached_def fireTimers_def onTimeout_def onForceKill_def settle_def Let_def
          timerDelay_def)
  next
    case c
    with assms show ?thesis
      by (auto simp add: reached_def fireTimers_def onTimeout_def onForceKill_def settle_def Let_def
          timerDelay_def)
  qed
qed

lemma reached_output:
  assumes "reached command T p D u r" and "outputOnly ev"
  shows "reached command T p D u (onChildEvent nm ev r)"
  using assms by (cases ev) (auto simp add: reached_def onChildEvent_def)

lemma reached_deliver:
  "reached command T p D u r \<Longrightarrow> p \<noteq> 0 \<Longrightarrow> \<forall>e \<in> set evs. outputOnly (snd e) \<and> fst e \<le> t \<Longrightarrow>
     \<exists>u'. u' \<le> max u t \<and> reached command T p D u' (deliver nm evs r)"
proof (induction evs arbitrary: u r)
  case Nil
  have "u \<le> max u t \<and> reached command T p D u (deliver nm [] r)"
    using Nil by simp
  then show ?case by (rule exI)
next
  case (Cons e evs)
  obtain te ev where e: "e = (te, ev)" by (cases e)
  have o: "outputOnly ev" and le: "te \<le> t" using Cons.prems(3) e by auto
  have "reached command T p D (max u te) (onChildEvent nm ev (fireTimers te r))"
    using Cons.prems(1,2) o by (simp add: reached_fireTimers reached_output)
  from Cons.IH [OF this Cons.prems(2)] Cons.prems(3)
  obtain u' where b: "u' \<le> max (max u te) t"
    and re: "reached command T p D u' (deliver nm evs (onChildEvent nm ev (fireTimers te r)))"
    by auto
  have "u' \<le> max u t" using b le by linarith
  with re have "u' \<le> max u t \<and> reached command T p D u' (deliver nm (e # evs) r)"
    by (simp add: e)
  then show ?case by (rule exI)
qed

lemma reached_initial:
  "1 \<le> T \<Longrightarrow> T \<le> 2147483647 \<Longrightarrow>
     reached command T p (began + T) (began - 1) (executeRemoteCommand command T (Some p) began)"
  by (simp add: reached_def executeRemoteCommand_def timerDelay_def)


section \<open>Facts about the connection pool\<close>

lemma serial_simps [simp]:
  "serial [] = []" "serial (q # qs) = Begin q # End q # serial qs"
  "serial (xs @ ys) = serial xs @ serial ys"
  by (simp_all add: serial_def)










lemma sessionOk_lastUsed:
  "sessionOk qs ms (Some (s\<lparr>lastUsed := t\<rparr>)) = sessionOk qs ms (Some s)"
  by (simp add: sessionOk_def split: drain.splits)























section \<open>Claims\<close>

text \<open>
  C4.  The non-interactive rewrite of \<^verbatim>\<open>executeSudoCommand\<close> is idempotent: for every
  command text, rewriting the rewritten text gives the rewritten text again.
\<close>

theorem C4_sudo_rewrite_idempotent:
  "modifiedCommand (modifiedCommand c) = modifiedCommand c"
proof (cases "startsWith c ''sudo '' \<and> \<not> includes_str c ''sudo -n''")
  case True
  then have "includes_str (modifiedCommand c) ''sudo -n''"
    by (simp add: modifiedCommand_includes_n)
  then have "\<not> (startsWith (modifiedCommand c) ''sudo '' \<and>
      \<not> includes_str (modifiedCommand c) ''sudo -n'')"
    by simp
  then show ?thesis
    by (rule modifiedCommand_unchanged)
next
  case False
  then have "modifiedCommand c = c"
    by (rule modifiedCommand_unchanged)
  then show ?thesis
    by simp
qed


text \<open>
  C2.  Against a persistently failing target, a command executed with \<open>retries = R\<close>
  (\<open>R \<ge> 1\<close>) is attempted exactly \<open>R\<close> times; the wait after failed attempt number \<open>a\<close>
  (for \<open>a < R\<close>) is \<open>a\<close> times the base delay, 2000 ms on the sudo path and 1000 ms on
  the plain path, so the waits strictly increase; the error returned is that of attempt
  \<open>R\<close>, unchanged.  The events of the run are exactly \<open>failedRun\<close>: attempt, wait,
  attempt, wait, ..., attempt.
\<close>

theorem C2_retry_backoff:
  assumes failing: "persistentlyFailing env"
    and R: "retries options = Some R" "1 \<le> R"
    and base: "base = (if (case requiresSudo options of None \<Rightarrow> includes_str cmd ''sudo'' | Some b \<Rightarrow> b)
                          \<or> startsWith cmd ''sudo'' then 2000 else 1000)"
    and run: "executeRemoteCommandWithOptions env connection cmd options w = (res, w')"
  shows "\<exists>errs sent timeoutMs.
           length errs = nat R \<and>
           eventsSince w w' = failedRun base sent timeoutMs 1 errs \<and>
           attemptsOf (eventsSince w w') = map Inl errs \<and>
           delaysOf (eventsSince w w') = map (\<lambda>attempt. attempt * base) [1..R - 1] \<and>
           sorted_wrt (<) (delaysOf (eventsSince w w')) \<and>
           res = Inl (last errs)"
proof -
  define t where "t = (case timeout options of None \<Rightarrow> 30000 | Some t \<Rightarrow> t)"
  define sent where "sent = modifiedCommand cmd"
  have "\<exists>errs w''. executeRemoteCommandWithOptions env connection cmd options w = (Inl (last errs), w'') \<and>
          length errs = nat (R - 1 + 1) \<and> trace w'' = trace w @ failedRun base sent t 1 errs"
  proof (cases "(case requiresSudo options of None \<Rightarrow> includes_str cmd ''sudo'' | Some b \<Rightarrow> b)
                  \<or> startsWith cmd ''sudo''")
    case True
    then have "executeRemoteCommandWithOptions env connection cmd options w =
                 sudoAttempts env connection sent t R 1 w" and "base = 2000"
      using R base by (simp_all add: executeRemoteCommandWithOptions_def executeSudoCommand_def
          t_def sent_def Let_def)
    then show ?thesis
      using sudoAttempts_all_fail [OF failing R(2), of connection sent t w] by simp
  next
    case False
    then have "\<not> startsWith cmd ''sudo''" by simp
    then have "sent = cmd" by (simp add: sent_def modifiedCommand_plain)
    with False have "executeRemoteCommandWithOptions env connection cmd options w =
                 plainAttempts env connection sent t R 1 w" and "base = 1000"
      using R base by (simp_all add: executeRemoteCommandWithOptions_def t_def Let_def)
    then show ?thesis
      using plainAttempts_all_fail [OF failing R(2), of connection sent t w] by simp
  qed
  then obtain errs where res: "res = Inl (last errs)" and len: "length errs = nat R"
    and tr: "trace w' = trace w @ failedRun base sent t 1 errs"
    using run by auto
  have ev: "eventsSince w w' = failedRun base sent t 1 errs"
    using tr by (rule eventsSince_append)
  have pos: "0 < base" using base by simp
  have d: "delaysOf (eventsSince w w') = map (\<lambda>attempt. attempt * base) [1..R - 1]"
    using len R(2) by (simp add: ev delaysOf_failedRun)
  have "sorted_wrt (<) (delaysOf (eventsSince w w'))"
    unfolding d using pos by (rule sorted_delays)
  then show ?thesis
    using res len ev d by (auto simp add: attemptsOf_failedRun)
qed

theorem C2_retry_backoff_witness:
  "persistentlyFailing failingHost \<and>
   (\<exists>errs sent timeoutMs.
      length errs = nat 3 \<and>
      eventsSince freshWorld (snd (executeRemoteCommandWithOptions failingHost testConnection
         ''sudo systemctl stop celestia-light''
         \<lparr>timeout = Some 90000, requiresSudo = Some True, retries = Some 3\<rparr> freshWorld))
        = failedRun 2000 sent timeoutMs 1 errs \<and>
      fst (executeRemoteCommandWithOptions failingHost testConnection
         ''sudo systemctl stop celestia-light''
         \<lparr>timeout = Some 90000, requiresSudo = Some True, retries = Some 3\<rparr> freshWorld)
        = Inl (last errs)) \<and>
   delaysOf (eventsSince freshWorld (snd (executeRemoteCommandWithOptions failingHost testConnection
         ''sudo systemctl stop celestia-light''
         \<lparr>timeout = Some 90000, requiresSudo = Some True, retries = Some 3\<rparr> freshWorld)))
     = [2000, 4000]"
proof -
  let ?opts = "\<lparr>timeout = Some 90000, requiresSudo = Some True, retries = Some 3\<rparr>"
  let ?run = "executeRemoteCommandWithOptions failingHost testConnection
         ''sudo systemctl stop celestia-light'' ?opts freshWorld"
  have pf: "persistentlyFailing failingHost"
    by (simp add: persistentlyFailing_def failingHost_def)
  have r: "retries ?opts = Some 3" and le: "(1::int) \<le> 3" by simp_all
  have b: "(2000::int) = (if (case requiresSudo ?opts of None \<Rightarrow> includes_str ''sudo systemctl stop celestia-light'' ''sudo'' | Some b \<Rightarrow> b)
                          \<or> startsWith ''sudo systemctl stop celestia-light'' ''sudo'' then 2000 else 1000)"
    by simp
  have run: "?run = (fst ?run, snd ?run)" by simp
  from C2_retry_backoff [OF pf r le b run] obtain errs sent timeoutMs where
    "length errs = nat 3"
    "eventsSince freshWorld (snd ?run) = failedRun 2000 sent timeoutMs 1 errs"
    "delaysOf (eventsSince freshWorld (snd ?run)) = map (\<lambda>attempt. attempt * 2000) [1..3 - 1]"
    "fst ?run = Inl (last errs)"
    by blast
  then show ?thesis using pf by (auto simp add: upto_rec1)
qed

text \<open>
  C3.  When \<open>requiresSudo\<close> is left out, the command runs as if \<open>requiresSudo\<close> had been
  given as "the text contains \<^verbatim>\<open>sudo\<close>"; when it is given as \<open>b\<close>, the run is that of the
  sudo path (\<open>executeSudoCommand\<close>) if \<open>b\<close> holds or the text starts with \<^verbatim>\<open>sudo\<close>, and
  that of the plain path (the plain retry loop from attempt 1) otherwise.
\<close>

theorem C3_sudo_routing:
  "(requiresSudo options = None \<longrightarrow>
      executeRemoteCommandWithOptions env connection cmd options w =
      executeRemoteCommandWithOptions env connection cmd
        (options\<lparr>requiresSudo := Some (includes_str cmd ''sudo'')\<rparr>) w) \<and>
   (requiresSudo options = Some b \<longrightarrow>
      executeRemoteCommandWithOptions env connection cmd options w =
      (if b \<or> startsWith cmd ''sudo''
       then executeSudoCommand env connection cmd
              (case timeout options of None \<Rightarrow> 30000 | Some t \<Rightarrow> t)
              (case retries options of None \<Rightarrow> 1 | Some n \<Rightarrow> n) w
       else plainAttempts env connection cmd
              (case timeout options of None \<Rightarrow> 30000 | Some t \<Rightarrow> t)
              (case retries options of None \<Rightarrow> 1 | Some n \<Rightarrow> n) 1 w))"
  by (simp add: executeRemoteCommandWithOptions_def Let_def)

theorem C3_sudo_routing_witness:
  "executeRemoteCommandWithOptions failingHost testConnection ''echo x | sudo tee /tmp/x'' noOptions freshWorld =
     executeRemoteCommandWithOptions failingHost testConnection ''echo x | sudo tee /tmp/x''
       (noOptions\<lparr>requiresSudo := Some (includes_str ''echo x | sudo tee /tmp/x'' ''sudo'')\<rparr>) freshWorld \<and>
   executeRemoteCommandWithOptions failingHost testConnection ''ls''
       \<lparr>timeout = None, requiresSudo = Some True, retries = Some 2\<rparr> freshWorld =
     executeSudoCommand failingHost testConnection ''ls'' 30000 2 freshWorld \<and>
   executeRemoteCommandWithOptions failingHost testConnection ''sudo ls''
       \<lparr>timeout = None, requiresSudo = Some False, retries = Some 2\<rparr> freshWorld =
     executeSudoCommand failingHost testConnection ''sudo ls'' 30000 2 freshWorld \<and>
   executeRemoteCommandWithOptions failingHost testConnection ''echo sudo''
       \<lparr>timeout = None, requiresSudo = Some False, retries = Some 2\<rparr> freshWorld =
     plainAttempts failingHost testConnection ''echo sudo'' 30000 2 1 freshWorld"
  using C3_sudo_routing [where options = noOptions and env = failingHost
      and connection = testConnection and cmd = "''echo x | sudo tee /tmp/x''" and w = freshWorld]
    C3_sudo_routing [where options = "\<lparr>timeout = None, requiresSudo = Some True, retries = Some 2\<rparr>"
      and b = True and env = failingHost and connection = testConnection and cmd = "''ls''"
      and w = freshWorld]
    C3_sudo_routing [where options = "\<lparr>timeout = None, requiresSudo = Some False, retries = Some 2\<rparr>"
      and b = False and env = failingHost and connection = testConnection and cmd = "''sudo ls''"
      and w = freshWorld]
    C3_sudo_routing [where options = "\<lparr>timeout = None, requiresSudo = Some False, retries = Some 2\<rparr>"
      and b = False and env = failingHost and connection = testConnection and cmd = "''echo sudo''"
      and w = freshWorld]
  by (simp add: noOptions_def)

text \<open>
  C10.  Every text handed to the connection pool by a command executed with options is
  the command text itself, unless the text begins with \<^verbatim>\<open>'sudo '\<close> and does not contain
  \<^verbatim>\<open>'sudo -n'\<close>, in which case it is \<^verbatim>\<open>'sudo -n '\<close> followed by the rest of the text.
  In particular a command that is on the sudo path because \<open>requiresSudo\<close> is true, or
  because \<^verbatim>\<open>sudo\<close> occurs later in its text, is sent unmodified.  With at least one
  attempt allowed, a text is indeed handed over.
\<close>

theorem C10_rewrite_only_leading_sudo:
  assumes "executeRemoteCommandWithOptions env connection cmd options w = (res, w')"
  shows "set (textsOf (eventsSince w w')) \<subseteq>
           {if startsWith cmd ''sudo '' \<and> \<not> includes_str cmd ''sudo -n''
            then ''sudo -n '' @ drop 5 cmd else cmd} \<and>
         (1 \<le> (case retries options of None \<Rightarrow> 1 | Some n \<Rightarrow> n) \<longrightarrow>
            textsOf (eventsSince w w') \<noteq> [])"
proof -
  from withOptions_events [OF assms] obtain evs t where
    tr: "trace w' = trace w @ evs"
    and shape: "\<forall>ev \<in> set evs. (\<exists>ms. ev = Sleep ms) \<or> (\<exists>out. ev = Submit (modifiedCommand cmd) t out)"
    and ne: "1 \<le> (case retries options of None \<Rightarrow> 1 | Some n \<Rightarrow> n) \<longrightarrow>
          (\<exists>out. Submit (modifiedCommand cmd) t out \<in> set evs)"
    by blast
  have ev: "eventsSince w w' = evs" using tr by (rule eventsSince_append)
  have m: "modifiedCommand cmd = (if startsWith cmd ''sudo '' \<and> \<not> includes_str cmd ''sudo -n''
            then ''sudo -n '' @ drop 5 cmd else cmd)"
    by (simp add: modifiedCommand_rewritten modifiedCommand_unchanged eval_nat_numeral)
  have "set (textsOf evs) \<subseteq> {modifiedCommand cmd}"
    using shape by (auto simp add: textsOf_set)
  moreover have "1 \<le> (case retries options of None \<Rightarrow> 1 | Some n \<Rightarrow> n) \<longrightarrow> textsOf evs \<noteq> []"
  proof
    assume "1 \<le> (case retries options of None \<Rightarrow> 1 | Some n \<Rightarrow> n)"
    with ne obtain out where "Submit (modifiedCommand cmd) t out \<in> set evs" by blast
    then have "modifiedCommand cmd \<in> set (textsOf evs)" by (auto simp add: textsOf_set)
    then show "textsOf evs \<noteq> []" by auto
  qed
  ultimately show ?thesis unfolding ev m by blast
qed

theorem C10_rewrite_only_leading_sudo_witness:
  "set (textsOf (eventsSince freshWorld (snd (executeRemoteCommandWithOptions failingHost testConnection
      ''echo x | sudo tee /tmp/x'' noOptions freshWorld)))) \<subseteq> {''echo x | sudo tee /tmp/x''} \<and>
   textsOf (eventsSince freshWorld (snd (executeRemoteCommandWithOptions failingHost testConnection
      ''echo x | sudo tee /tmp/x'' noOptions freshWorld))) \<noteq> []"
proof -
  let ?run = "executeRemoteCommandWithOptions failingHost testConnection
      ''echo x | sudo tee /tmp/x'' noOptions freshWorld"
  have run: "?run = (fst ?run, snd ?run)" by simp
  from C10_rewrite_only_leading_sudo [OF run] show ?thesis
    by (simp add: noOptions_def)
qed


text \<open>
  C6.  With a connection configured, \<open>stopNode\<close> reports success exactly when the
  privileged stop command, run with its two attempts, succeeds, which is exactly when one
  of its attempts is seen to succeed in the events of that command.  Nothing that follows
  (the status query, the poll for remaining processes, which always ends, also by
  exhausting its 30 s budget) turns the success into a failure.  When the stop command
  fails, \<open>stopNode\<close> reports failure and does nothing more.
\<close>

theorem C6_stop_result:
  assumes conn: "createConnection env = Some connection"
    and stopCmd: "executeCommand env connection stopServiceCmd
        \<lparr>timeout = Some 90000, requiresSudo = Some True, retries = Some 2\<rparr> w = (res, w1)"
  shows "fst (stopNode env w) = (\<exists>r. res = Inr r) \<and>
         (\<exists>r. res = Inr r) =
           (\<exists>r. Submit ''sudo -n systemctl stop celestia-light'' 90000 (Inr r)
                  \<in> set (eventsSince w w1)) \<and>
         ((\<exists>e. res = Inl e) \<longrightarrow> stopNode env w = (False, w1))"
proof -
  have a: "fst (stopNode env w) = (\<exists>r. res = Inr r)"
    using conn stopCmd
    by (cases res) (simp_all add: stopNode_def stopSystemdService_def split: prod.splits)
  have c: "(\<exists>e. res = Inl e) \<longrightarrow> stopNode env w = (False, w1)"
    using conn stopCmd
    by (cases res) (simp_all add: stopNode_def stopSystemdService_def split: prod.splits)
  from withOptions_events [OF stopCmd [unfolded executeCommand_def]]
  obtain evs t where tr: "trace w1 = trace w @ evs"
    and ok: "\<forall>r. Submit (modifiedCommand stopServiceCmd) t (Inr r) \<in> set evs \<longleftrightarrow> res = Inr r"
    and t: "t = (case timeout \<lparr>timeout = Some 90000, requiresSudo = Some True, retries = Some 2\<rparr>
                 of None \<Rightarrow> 30000 | Some t \<Rightarrow> t)"
    by blast
  have "eventsSince w w1 = evs" using tr by (rule eventsSince_append)
  then have b: "(\<exists>r. res = Inr r) =
           (\<exists>r. Submit ''sudo -n systemctl stop celestia-light'' 90000 (Inr r)
                  \<in> set (eventsSince w w1))"
    using ok t by (simp add: stopServiceCmd_sent)
  from a b c show ?thesis by blast
qed

theorem C6_stop_result_witness:
  "fst (stopNode (hostAnswering lingeringProcess 400) freshWorld) = True \<and>
   last (attemptsOf (trace (snd (stopNode (hostAnswering lingeringProcess 400) freshWorld))))
     = printing ''4711'' \<and>
   30000 \<le> now (snd (stopNode (hostAnswering lingeringProcess 400) freshWorld)) \<and>
   stopNode failingHost freshWorld =
     (False, snd (executeCommand failingHost testConnection stopServiceCmd
        \<lparr>timeout = Some 90000, requiresSudo = Some True, retries = Some 2\<rparr> freshWorld))"
proof -
  let ?opts = "\<lparr>timeout = Some 90000, requiresSudo = Some True, retries = Some 2\<rparr>"
  let ?host = "hostAnswering lingeringProcess 400"
  let ?good = "executeCommand ?host testConnection stopServiceCmd ?opts freshWorld"
  let ?bad = "executeCommand failingHost testConnection stopServiceCmd ?opts freshWorld"
  have c1: "createConnection ?host = Some testConnection"
    by (simp add: createConnection_def hostAnswering_def jsOr_def testConnection_def)
  have c2: "createConnection failingHost = Some testConnection"
    by (simp add: createConnection_def failingHost_def jsOr_def testConnection_def)
  have g: "?good = (fst ?good, snd ?good)" and b: "?bad = (fst ?bad, snd ?bad)" by simp_all
  have gr: "fst ?good = printing []" by code_simp
  have br: "fst ?bad = Inl (Error ''exit II'')" by code_simp
  have poll: "last (attemptsOf (trace (snd (stopNode ?host freshWorld)))) = printing ''4711''"
    by code_simp
  have late: "30000 \<le> now (snd (stopNode ?host freshWorld))"
    by code_simp
  from C6_stop_result [OF c1 g] C6_stop_result [OF c2 b] gr br poll late
  show ?thesis by (simp add: printing_def)
qed

text \<open>
  C7.  Starting an already active service, where it goes wrong.  On a host where the
  service-active query prints \<^verbatim>\<open>active\<close> and the status dump requested next fails,
  \<open>isServiceRunning\<close> reports the service as running, no start command is issued, and
  \<open>start\<close> nevertheless returns \<open>False\<close>: the status dump, made for the log only, is
  awaited inside the outer \<^verbatim>\<open>try\<close> without a handler of its own (unlike the one in
  \<open>showServiceStatus\<close>).
\<close>

theorem C7_start_fails_when_status_query_fails:
  "isServiceRunning (hostAnswering activeButStatusLost 400) testConnection freshWorld =
     (True, \<lparr>remote = 1, now = 400,
              trace = [Submit isActiveCmd 30000 (printing ''active'')]\<rparr>) \<and>
   start ''mocha-4'' (hostAnswering activeButStatusLost 400) freshWorld =
     (False, \<lparr>remote = 2, now = 800,
               trace = [Submit isActiveCmd 30000 (printing ''active''),
                        Submit currentStatusCmd 30000
                          (Inl (Error ''SSH command failed with code 255: Connection reset''))]\<rparr>)"
  by code_simp

text \<open>
  C8, as the code has it.  Let the initial query find the service not running.  Then the
  next event of \<open>start\<close> is the start command, sent once as
  \<^verbatim>\<open>sudo -n systemctl start celestia-light.service\<close>.  If that command fails, nothing
  follows: no wait, no re-check, and \<open>start\<close> returns \<open>False\<close>.  If it succeeds, a wait of
  3000 ms and a wait of 5000 ms follow, then the one re-check of the active status, whose
  answer is the result of \<open>start\<close>; the diagnostics after a negative re-check do not ask for
  the active status again.
\<close>

theorem C8_settle_delay_amended:
  assumes conn: "createConnection env = Some connection"
    and idle: "isServiceRunning env connection w = (False, w1)"
  shows "\<exists>startOut rest.
           eventsSince w1 (snd (start network env w)) =
             Submit ''sudo -n systemctl start celestia-light.service'' 30000 startOut # rest \<and>
           (case startOut of
              Inl err \<Rightarrow> rest = [] \<and> \<not> fst (start network env w)
            | Inr startResult \<Rightarrow>
                \<exists>recheck diagnostics.
                  rest = Sleep 3000 # Sleep 5000 # Submit isActiveCmd 30000 recheck # diagnostics \<and>
                  isActiveCmd \<notin> set (textsOf diagnostics) \<and>
                  fst (start network env w) =
                    (\<exists>r. recheck = Inr r \<and> trim (stdout r) = ''active''))"
proof -
  obtain startOut r2 d2 where
    e2: "exec env connection ''sudo -n systemctl start celestia-light.service'' 30000 (now w1) (remote w1)
          = (startOut, r2, d2)"
    by (metis prod_cases3)
  define w2 where "w2 = \<lparr>remote = r2, now = now w1 + int d2,
      trace = trace w1 @ [Submit ''sudo -n systemctl start celestia-light.service'' 30000 startOut]\<rparr>"
  have run2: "executeCommand env connection startServiceCmd noOptions w1 = (startOut, w2)"
    using e2 by (simp add: runRemote_sudo_default lifecycle_sudo_cmds startServiceCmd_sent
        executeRemoteCommandPooled_def w2_def)
  show ?thesis
  proof (cases startOut)
    case (Inl err)
    then have "start network env w = (False, w2)"
      using conn idle run2 by (simp add: start_def startService_def)
    then show ?thesis
      using Inl by (simp add: eventsSince_def w2_def)
  next
    case (Inr startResult)
    define w3 where "w3 = sleep 5000 (sleep 3000 w2)"
    obtain recheck r4 d4 where
      e4: "exec env connection isActiveCmd 30000 (now w3) (remote w3) = (recheck, r4, d4)"
      by (metis prod_cases3)
    define w4 where "w4 = \<lparr>remote = r4, now = now w3 + int d4,
      trace = trace w3 @ [Submit isActiveCmd 30000 recheck]\<rparr>"
    define running where "running = (\<exists>r. recheck = Inr r \<and> trim (stdout r) = ''active'')"
    have run4: "isServiceRunning env connection w3 = (running, w4)"
      using e4 by (cases recheck)
        (simp_all add: isServiceRunning_def runRemote_isActive_default
          executeRemoteCommandPooled_def w4_def running_def)
    have tr4: "trace w4 = trace w1 @ [Submit ''sudo -n systemctl start celestia-light.service'' 30000 startOut,
        Sleep 3000, Sleep 5000, Submit isActiveCmd 30000 recheck]"
      by (simp add: w4_def w3_def w2_def sleep_def)
    show ?thesis
    proof (cases running)
      case True
      then have "start network env w = (True, w4)"
        using conn idle run2 run4 Inr by (simp add: start_def startService_def w3_def)
      then show ?thesis
        using Inr True tr4 by (simp add: eventsSince_def running_def)
    next
      case False
      then have st: "start network env w = (False, showServiceStatus env connection w4)"
        using conn idle run2 run4 Inr by (simp add: start_def startService_def w3_def)
      have "\<exists>diagnostics. trace (showServiceStatus env connection w4) = trace w4 @ diagnostics \<and>
              isActiveCmd \<notin> set (textsOf diagnostics)"
        by (auto simp add: showServiceStatus_def runRemote_sudo_default lifecycle_sudo_cmds
            detailedStatusCmd_sent recentLogsCmd_sent executeRemoteCommandPooled_def
            isActiveCmd_def split: prod.splits sum.splits)
      then obtain diagnostics where
        "trace (showServiceStatus env connection w4) = trace w4 @ diagnostics"
        "isActiveCmd \<notin> set (textsOf diagnostics)"
        by blast
      then show ?thesis
        using Inr False tr4 st by (simp add: eventsSince_def running_def)
    qed
  qed
qed

theorem C8_settle_delay_witness:
  "createConnection (hostAnswering startAccepted 400) = Some testConnection \<and>
   isServiceRunning (hostAnswering startAccepted 400) testConnection freshWorld =
     (False, snd (isServiceRunning (hostAnswering startAccepted 400) testConnection freshWorld)) \<and>
   (\<exists>startOut rest.
      eventsSince (snd (isServiceRunning (hostAnswering startAccepted 400) testConnection freshWorld))
        (snd (start ''mocha-4'' (hostAnswering startAccepted 400) freshWorld)) =
        Submit ''sudo -n systemctl start celestia-light.service'' 30000 startOut # rest \<and>
      (case startOut of
         Inl err \<Rightarrow> rest = [] \<and> \<not> fst (start ''mocha-4'' (hostAnswering startAccepted 400) freshWorld)
       | Inr startResult \<Rightarrow>
           \<exists>recheck diagnostics.
             rest = Sleep 3000 # Sleep 5000 # Submit isActiveCmd 30000 recheck # diagnostics \<and>
             isActiveCmd \<notin> set (textsOf diagnostics) \<and>
             fst (start ''mocha-4'' (hostAnswering startAccepted 400) freshWorld) =
               (\<exists>r. recheck = Inr r \<and> trim (stdout r) = ''active''))) \<and>
   delaysOf (trace (snd (start ''mocha-4'' (hostAnswering startAccepted 400) freshWorld))) = [3000, 5000]"
proof -
  let ?host = "hostAnswering startAccepted 400"
  have c: "createConnection ?host = Some testConnection"
    by (simp add: createConnection_def hostAnswering_def jsOr_def testConnection_def)
  have "fst (isServiceRunning ?host testConnection freshWorld) = False"
    by code_simp
  then have i: "isServiceRunning ?host testConnection freshWorld =
      (False, snd (isServiceRunning ?host testConnection freshWorld))"
    by (metis prod.collapse)
  have d: "delaysOf (trace (snd (start ''mocha-4'' ?host freshWorld))) = [3000, 5000]"
    by code_simp
  from C8_settle_delay_amended [OF c i, of "''mocha-4''"] c i d show ?thesis
    by blast
qed

text \<open>
  C8, with a delay "regardless of the outcome", does not hold: on a host that reports the
  service inactive and refuses the start command, \<open>start\<close> issues the start command and
  then neither waits nor re-checks.
\<close>

theorem C8_failed_start_counterexample:
  "trace (snd (start ''mocha-4'' (hostAnswering startRefused 400) freshWorld)) =
     [Submit isActiveCmd 30000 (printing ''inactive''),
      Submit ''sudo -n systemctl start celestia-light.service'' 30000
        (Inl (Error ''SSH command failed with code 1: sudo: a password is required''))] \<and>
   delaysOf (trace (snd (start ''mocha-4'' (hostAnswering startRefused 400) freshWorld))) = [] \<and>
   fst (start ''mocha-4'' (hostAnswering startRefused 400) freshWorld) = False"
  by code_simp

text \<open>
  C9.  With a connection configured, \<open>getStatus\<close> reports \<open>isRunning\<close> exactly when,
  among the events of the query, the service-active command succeeded with output that
  trims to \<^verbatim>\<open>active\<close>, or the process-list command succeeded with at least one
  process id in its output.  So a failed or \<^verbatim>\<open>inactive\<close> service query does not prevent
  \<open>isRunning\<close> when a process is found.  The same holds of the result of
  \<open>isCelestiaProcessesRunning\<close>.
\<close>

theorem C9_status_running_iff:
  assumes conn: "createConnection env = Some connection"
  shows "isRunning (fst (getStatus env w)) =
           ((\<exists>r \<in> set (resultsOf (eventsSince w (snd (getStatus env w))) isActiveCmd).
               trim (stdout r) = ''active'') \<or>
            (\<exists>r \<in> set (resultsOf (eventsSince w (snd (getStatus env w))) pgrepCmd).
               pidsOf (stdout r) \<noteq> [])) \<and>
         fst (isCelestiaProcessesRunning env w) =
           ((\<exists>r \<in> set (resultsOf (eventsSince w (snd (isCelestiaProcessesRunning env w))) isActiveCmd).
               trim (stdout r) = ''active'') \<or>
            (\<exists>r \<in> set (resultsOf (eventsSince w (snd (isCelestiaProcessesRunning env w))) pgrepCmd).
               pidsOf (stdout r) \<noteq> []))"
  using getStatus_running_iff [OF conn] isCelestiaProcessesRunning_iff [OF conn]
  by (rule conjI)

theorem C9_status_running_iff_witness:
  "isRunning (fst (getStatus (hostAnswering unmanagedProcess 400) freshWorld)) =
     ((\<exists>r \<in> set (resultsOf (eventsSince freshWorld
                 (snd (getStatus (hostAnswering unmanagedProcess 400) freshWorld))) isActiveCmd).
         trim (stdout r) = ''active'') \<or>
      (\<exists>r \<in> set (resultsOf (eventsSince freshWorld
                 (snd (getStatus (hostAnswering unmanagedProcess 400) freshWorld))) pgrepCmd).
         pidsOf (stdout r) \<noteq> [])) \<and>
   isRunning (fst (getStatus (hostAnswering unmanagedProcess 400) freshWorld)) = True \<and>
   serviceStatus (fst (getStatus (hostAnswering unmanagedProcess 400) freshWorld)) = ''inactive'' \<and>
   processIds (fst (getStatus (hostAnswering unmanagedProcess 400) freshWorld)) = [''4711''] \<and>
   isRunning (fst (getStatus (hostAnswering serviceQueryFails 400) freshWorld)) = True \<and>
   serviceStatus (fst (getStatus (hostAnswering serviceQueryFails 400) freshWorld)) = ''unknown'' \<and>
   fst (isCelestiaProcessesRunning (hostAnswering serviceQueryFails 400) freshWorld) = True"
proof -
  let ?host = "hostAnswering unmanagedProcess 400"
  have c: "createConnection ?host = Some testConnection"
    by (simp add: createConnection_def hostAnswering_def jsOr_def testConnection_def)
  have 1: "isRunning (fst (getStatus ?host freshWorld)) = True" by code_simp
  have 2: "serviceStatus (fst (getStatus ?host freshWorld)) = ''inactive''" by code_simp
  have 3: "processIds (fst (getStatus ?host freshWorld)) = [''4711'']" by code_simp
  have 4: "isRunning (fst (getStatus (hostAnswering serviceQueryFails 400) freshWorld)) = True"
    by code_simp
  have 5: "serviceStatus (fst (getStatus (hostAnswering serviceQueryFails 400) freshWorld)) = ''unknown''"
    by code_simp
  have 6: "fst (isCelestiaProcessesRunning (hostAnswering serviceQueryFails 400) freshWorld) = True"
    by code_simp
  from C9_status_running_iff [OF c, of freshWorld] 1 2 3 4 5 6 show ?thesis
    by blast
qed


text \<open>
  C5.  Let a command be run at time \<open>began\<close> with timeout \<open>T\<close> (within the range of
  \<^verbatim>\<open>setTimeout\<close>, 1 to 2147483647 ms), its child spawned, and let the child never close
  nor err (it may still write output).  With timers that run at their due times: before \<open>began + T\<close> no signal has been sent and the promise is
  pending; at \<open>began + T\<close> exactly, SIGTERM is sent and the promise is rejected with the
  error \<^verbatim>\<open>SSH command timeout after Tms: command\<close>; at \<open>began + T + 5000\<close> exactly,
  SIGKILL is sent; nothing else is ever sent.
\<close>

theorem C5_timeout_escalation:
  assumes never: "\<forall>e \<in> set evs. outputOnly (snd e)"
    and spawned: "p \<noteq> 0"
    and T: "1 \<le> T" "T \<le> 2147483647"
    and r: "r = runUntil nm t evs (executeRemoteCommand command T (Some p) began)"
    and msg: "msg = ''SSH command timeout after '' @ numberText T @ ''ms: '' @ command"
  shows "(t < began + T \<longrightarrow> killed r = [] \<and> settled r = None) \<and>
         (began + T \<le> t \<and> t < began + T + 5000 \<longrightarrow>
            killed r = [(began + T, SIGTERM)] \<and> settled r = Some (Inl (Error msg))) \<and>
         (began + T + 5000 \<le> t \<longrightarrow>
            killed r = [(began + T, SIGTERM), (began + T + 5000, SIGKILL)] \<and>
            settled r = Some (Inl (Error msg)))"
proof -
  let ?r0 = "executeRemoteCommand command T (Some p) began"
  have "\<forall>e \<in> set [e \<leftarrow> evs. fst e \<le> t]. outputOnly (snd e) \<and> fst e \<le> t"
    using never by auto
  from reached_deliver [OF reached_initial [OF T] spawned this]
  obtain u' where u': "u' \<le> max (began - 1) t"
    and "reached command T p (began + T) u' (deliver nm [e \<leftarrow> evs. fst e \<le> t] ?r0)"
    by blast
  then have fin: "reached command T p (began + T) (max u' t) r"
    using spawned unfolding r runUntil_def by (simp add: reached_fireTimers)
  have lvl: "max u' t = t \<or> (t \<le> max u' t \<and> max u' t < began)"
    using u' by auto
  show ?thesis
    using fin lvl T unfolding reached_def msg by auto
qed

theorem C5_timeout_escalation_witness:
  "killed (runUntil id 40000 [(5, StdoutData ''starting'')]
             (executeRemoteCommand ''sleep 1000'' 30000 (Some 77) 100))
     = [(30100, SIGTERM), (35100, SIGKILL)] \<and>
   settled (runUntil id 40000 [(5, StdoutData ''starting'')]
              (executeRemoteCommand ''sleep 1000'' 30000 (Some 77) 100))
     = Some (Inl (Error ''SSH command timeout after 30000ms: sleep 1000'')) \<and>
   killed (runUntil id 32000 [(5, StdoutData ''starting'')]
             (executeRemoteCommand ''sleep 1000'' 30000 (Some 77) 100))
     = [(30100, SIGTERM)]"
proof -
  have n: "numberText 30000 = ''30000''"
    by (simp add: numberText_def decimal.simps digitChar_def)
  have o: "\<forall>e \<in> set [(5::int, StdoutData ''starting'')]. outputOnly (snd e)" by simp
  have p: "(77::nat) \<noteq> 0" and T: "(1::int) \<le> 30000" "(30000::int) \<le> 2147483647"
    by simp_all
  from C5_timeout_escalation [OF o p T refl refl, where nm = id and t = 40000
        and command = "''sleep 1000''" and began = 100]
    C5_timeout_escalation [OF o p T refl refl, where nm = id and t = 32000
        and command = "''sleep 1000''" and began = 100]
  show ?thesis by (simp add: n)
qed




end
